theory Spec2Isabelle
  imports Complex_Main
begin

section \<open>Run-time values\<close>

text \<open>
  The converter of \<^verbatim>\<open>src/app.js\<close> works on whatever \<^verbatim>\<open>JSON.parse\<close> returned. A value of
  type \<open>js\<close> is such a run-time value. \<open>Undefined\<close> is what reading an absent property
  gives. \<open>Native\<close> stands for a member inherited from a prototype of the runtime (a
  method such as \<^verbatim>\<open>toString\<close>), which only a computed key can reach. An object is the
  list of its own properties in the order \<^verbatim>\<open>Object.keys\<close> reports them; its keys are
  distinct, and a read takes the first match.

  Numbers are rationals: comparison agrees with the one on doubles, and a product that
  a double cannot hold is rounded by the runtime; the infinities that \<^verbatim>\<open>JSON.parse\<close>
  returns for literals out of range are not modelled. Strings are byte strings, the
  UTF-8 encoding of the JavaScript string; case mapping is that of ASCII, and lengths
  count bytes where JavaScript counts UTF-16 units.
\<close>

datatype js =
    Undefined
  | Null
  | Bool bool
  | Num rat
  | Str string
  | Arr "js list"
  | Obj "(string \<times> js) list"
  | Native

datatype error = TypeError

text \<open>A \<^verbatim>\<open>Date\<close> object: its time value in milliseconds, or an invalid date.\<close>

datatype date = Date int | InvalidDate

text \<open>
  What the model takes from the JavaScript runtime and does not define itself: the
  textual form of a number that is not a small integer, \<^verbatim>\<open>JSON.stringify\<close>, the number a
  string converts to (\<open>None\<close> for \<^verbatim>\<open>NaN\<close>), the double nearest to a thousand times a
  number, the parser of date strings behind \<^verbatim>\<open>new Date(string)\<close>, the clock (read once),
  \<^verbatim>\<open>Array.prototype.sort\<close> under the comparator of \<^verbatim>\<open>parseMapping\<close> (it throws when
  a call of the comparator throws), the chain of regular-expression replacements of
  \<^verbatim>\<open>stripHtml\<close>, and which names a value inherits from its prototype chain.
\<close>

record runtime =
  numberToString :: "rat \<Rightarrow> string"
  jsonStringify :: "js \<Rightarrow> string"
  stringToNumber :: "string \<Rightarrow> rat option"
  timesThousand :: "rat \<Rightarrow> rat"
  dateParse :: "string \<Rightarrow> date"
  now :: date
  sortByCreateTime :: "js list \<Rightarrow> error + js list"
  replaceTags :: "string \<Rightarrow> string"
  inherited :: "js \<Rightarrow> string \<Rightarrow> bool"

subsection \<open>Truthiness and property reads\<close>

fun truthy :: "js \<Rightarrow> bool" where
  "truthy Undefined = False"
| "truthy Null = False"
| "truthy (Bool b) = b"
| "truthy (Num n) = (n \<noteq> 0)"
| "truthy (Str s) = (s \<noteq> [])"
| "truthy (Arr xs) = True"
| "truthy (Obj kvs) = True"
| "truthy Native = True"

fun nullish :: "js \<Rightarrow> bool" where
  "nullish Undefined = True"
| "nullish Null = True"
| "nullish v = False"

text \<open>\<^verbatim>\<open>a || b\<close>\<close>

definition orElse :: "js \<Rightarrow> js \<Rightarrow> js" where
  "orElse a b = (if truthy a then a else b)"

text \<open>
  \<^verbatim>\<open>v.k\<close> for the field names the source writes out, on a receiver that is neither
  \<^verbatim>\<open>null\<close> nor \<^verbatim>\<open>undefined\<close> (on those the read throws, which every caller checks
  with \<open>nullish\<close> first). None of these names is a member of a prototype, so only
  an object's own property answers.
\<close>

fun lookup :: "(string \<times> js) list \<Rightarrow> string \<Rightarrow> js" where
  "lookup [] k = Undefined"
| "lookup ((k', v) # kvs) k = (if k' = k then v else lookup kvs k)"

fun get :: "js \<Rightarrow> string \<Rightarrow> js" where
  "get (Obj kvs) k = lookup kvs k"
| "get v k = Undefined"

fun isArray :: "js \<Rightarrow> bool" where
  "isArray (Arr xs) = True"
| "isArray v = False"

fun isString :: "js \<Rightarrow> bool" where
  "isString (Str s) = True"
| "isString v = False"

subsection \<open>Strings\<close>

definition startsWith :: "string \<Rightarrow> string \<Rightarrow> bool" where
  "startsWith s p = (take (length p) s = p)"

text \<open>
  The white space and line terminators of ECMAScript, each as its UTF-8 bytes: U+0009 to
  U+000D, U+0020, U+00A0, U+1680, U+2000 to U+200A, U+2028, U+2029, U+202F, U+205F,
  U+3000 and U+FEFF.
\<close>

definition whiteSpace :: "string list" where
  "whiteSpace =
     [[CHR 0x09], [CHR 0x0A], [CHR 0x0B], [CHR 0x0C], [CHR 0x0D], [CHR 0x20],
      [CHR 0xC2, CHR 0xA0],
      [CHR 0xE1, CHR 0x9A, CHR 0x80],
      [CHR 0xE2, CHR 0x80, CHR 0x80], [CHR 0xE2, CHR 0x80, CHR 0x81],
      [CHR 0xE2, CHR 0x80, CHR 0x82], [CHR 0xE2, CHR 0x80, CHR 0x83],
      [CHR 0xE2, CHR 0x80, CHR 0x84], [CHR 0xE2, CHR 0x80, CHR 0x85],
      [CHR 0xE2, CHR 0x80, CHR 0x86], [CHR 0xE2, CHR 0x80, CHR 0x87],
      [CHR 0xE2, CHR 0x80, CHR 0x88], [CHR 0xE2, CHR 0x80, CHR 0x89],
      [CHR 0xE2, CHR 0x80, CHR 0x8A],
      [CHR 0xE2, CHR 0x80, CHR 0xA8], [CHR 0xE2, CHR 0x80, CHR 0xA9],
      [CHR 0xE2, CHR 0x80, CHR 0xAF],
      [CHR 0xE2, CHR 0x81, CHR 0x9F],
      [CHR 0xE3, CHR 0x80, CHR 0x80],
      [CHR 0xEF, CHR 0xBB, CHR 0xBF]]"

text \<open>Strips from the front, as long as one of the patterns is there.\<close>

function dropLeading :: "string list \<Rightarrow> string \<Rightarrow> string" where
  "dropLeading pats s =
     (case find (\<lambda>p. p \<noteq> [] \<and> startsWith s p) pats of
        None \<Rightarrow> s
      | Some p \<Rightarrow> dropLeading pats (drop (length p) s))"
  by pat_completeness auto
termination
proof (relation "measure (\<lambda>(pats, s). length s)")
  show "wf (measure (\<lambda>(pats, s). length s))" by simp
next
  fix pats :: "string list" and s p :: string
  assume "find (\<lambda>p. p \<noteq> [] \<and> startsWith s p) pats = Some p"
  then have "p \<noteq> []" and "take (length p) s = p"
    by (auto simp: find_Some_iff startsWith_def)
  then have "s \<noteq> []" by auto
  with \<open>p \<noteq> []\<close> show "((pats, drop (length p) s), pats, s) \<in> measure (\<lambda>(pats, s). length s)"
    by simp
qed

declare dropLeading.simps [simp del]

text \<open>
  \<^verbatim>\<open>String.prototype.trim\<close>. No pattern begins with a continuation byte, so a pattern at
  the end of the bytes is a white-space character at the end of the string.
\<close>

definition trim :: "string \<Rightarrow> string" where
  "trim s = rev (dropLeading (map rev whiteSpace) (rev (dropLeading whiteSpace s)))"

definition lowerChar :: "char \<Rightarrow> char" where
  "lowerChar c =
     (let n = (of_char c :: nat) in if 65 \<le> n \<and> n \<le> 90 then char_of (n + 32) else c)"

text \<open>
  \<^verbatim>\<open>String.prototype.toLowerCase\<close> on the letters A to Z, which is what decides every
  comparison the source makes with its result (role names and file-name patterns are
  ASCII); bytes of characters outside ASCII are left as they are.
\<close>

definition toLowerCase :: "string \<Rightarrow> string" where
  "toLowerCase s = map lowerChar s"

text \<open>\<^verbatim>\<open>String.prototype.includes\<close>\<close>

fun includesStr :: "string \<Rightarrow> string \<Rightarrow> bool" where
  "includesStr [] p = (p = [])"
| "includesStr (c # s) p = (startsWith (c # s) p \<or> includesStr s p)"

text \<open>\<^verbatim>\<open>s.replace(p, r)\<close> with a string pattern: the first occurrence only.\<close>

fun replaceFirst :: "string \<Rightarrow> string \<Rightarrow> string \<Rightarrow> string" where
  "replaceFirst [] p r = (if p = [] then r else [])"
| "replaceFirst (c # s) p r =
     (if startsWith (c # s) p then r @ drop (length p) (c # s)
      else c # replaceFirst s p r)"

text \<open>\<^verbatim>\<open>Array.prototype.join\<close> on strings.\<close>

fun join :: "string \<Rightarrow> string list \<Rightarrow> string" where
  "join sep [] = []"
| "join sep [s] = s"
| "join sep (s # t # ss) = s @ sep @ join sep (t # ss)"

definition digit :: "nat \<Rightarrow> char" where
  "digit d = char_of (48 + d)"

fun showNat :: "nat \<Rightarrow> string" where
  "showNat n = (if n < 10 then [digit n] else showNat (n div 10) @ [digit (n mod 10)])"

declare showNat.simps [simp del]

subsection \<open>Conversion to a string\<close>

definition isInteger :: "rat \<Rightarrow> bool" where
  "isInteger q = (q = of_int \<lfloor>q\<rfloor>)"

text \<open>
  \<^verbatim>\<open>Number::toString\<close>: an integer up to \<open>2^53\<close> in magnitude prints as its decimal
  digits; every other number is left to the runtime.
\<close>

definition numToString :: "runtime \<Rightarrow> rat \<Rightarrow> string" where
  "numToString rt q =
     (if isInteger q \<and> \<bar>q\<bar> \<le> 2 ^ 53
      then (if q < 0 then ''-'' else '''') @ showNat (nat \<bar>\<lfloor>q\<rfloor>\<bar>)
      else numberToString rt q)"

text \<open>
  \<^verbatim>\<open>ToString\<close>, as \<^verbatim>\<open>join\<close> and computed property keys apply it. An array prints its
  elements joined with commas, \<^verbatim>\<open>null\<close> and \<^verbatim>\<open>undefined\<close> elements as the empty string.
  An object is converted through its \<^verbatim>\<open>toString\<close> and \<^verbatim>\<open>valueOf\<close>: an own property
  \<^verbatim>\<open>toString\<close> of a parsed object is not callable and the inherited \<^verbatim>\<open>valueOf\<close> returns
  the object, so the conversion throws; without it the inherited method answers.
  \<open>elementStrings\<close> is the conversion of the elements that \<^verbatim>\<open>join\<close> performs.
\<close>

fun toString :: "runtime \<Rightarrow> js \<Rightarrow> error + string"
  and elementStrings :: "runtime \<Rightarrow> js list \<Rightarrow> error + string list"
where
  "toString rt Undefined = Inr ''undefined''"
| "toString rt Null = Inr ''null''"
| "toString rt (Bool b) = Inr (if b then ''true'' else ''false'')"
| "toString rt (Num q) = Inr (numToString rt q)"
| "toString rt (Str s) = Inr s"
| "toString rt (Arr xs) =
     (case elementStrings rt xs of Inl e \<Rightarrow> Inl e | Inr ss \<Rightarrow> Inr (join '','' ss))"
| "toString rt (Obj kvs) =
     (if ''toString'' \<in> set (map fst kvs) then Inl TypeError else Inr ''[object Object]'')"
| "toString rt Native = Inr ''function () { [native code] }''"
| "elementStrings rt [] = Inr []"
| "elementStrings rt (x # xs) =
     (case (if nullish x then Inr [] else toString rt x) of
        Inl e \<Rightarrow> Inl e
      | Inr s \<Rightarrow>
          (case elementStrings rt xs of Inl e \<Rightarrow> Inl e | Inr ss \<Rightarrow> Inr (s # ss)))"


section \<open>TimestampNormalizer\<close>

text \<open>\<^verbatim>\<open>new Date(number)\<close>: the time value is clipped and truncated towards zero.\<close>

definition timeClip :: "rat \<Rightarrow> date" where
  "timeClip t =
     (if \<bar>t\<bar> > 8640000000000000 then InvalidDate
      else Date (if t \<ge> 0 then \<lfloor>t\<rfloor> else \<lceil>t\<rceil>))"

text \<open>
  \<^verbatim>\<open>value * 1000\<close>: the product of doubles is the exact one where a double holds it, as
  it does for an integer product up to \<open>2^53\<close>, and the nearest double otherwise.
\<close>

definition secondsToMillis :: "runtime \<Rightarrow> rat \<Rightarrow> rat" where
  "secondsToMillis rt n =
     (if isInteger n \<and> \<bar>n * 1000\<bar> \<le> 2 ^ 53 then n * 1000 else timesThousand rt n)"

text \<open>
  \<^verbatim>\<open>parseTimestamp(value)\<close>. The test \<^verbatim>\<open>value instanceof Date\<close> never succeeds on a
  value read from parsed JSON and has no branch here.
\<close>

fun parseTimestamp :: "runtime \<Rightarrow> js \<Rightarrow> date option" where
  "parseTimestamp rt value =
     (if \<not> truthy value then None
      else case value of
        Num n \<Rightarrow> Some (timeClip (if n > 9999999999 then n else secondsToMillis rt n))
      | Str s \<Rightarrow> (case dateParse rt s of Date t \<Rightarrow> Some (Date t) | InvalidDate \<Rightarrow> None)
      | _ \<Rightarrow> None)"

section \<open>MessageNormalizer\<close>

record message =
  role :: js
  content :: js
  timestamp :: "date option"

text \<open>\<^verbatim>\<open>xs.join(sep)\<close> on arbitrary elements; it throws when an element cannot be converted.\<close>

definition joinJs :: "runtime \<Rightarrow> string \<Rightarrow> js list \<Rightarrow> error + string" where
  "joinJs rt sep xs =
     (case elementStrings rt xs of Inl e \<Rightarrow> Inl e | Inr ss \<Rightarrow> Inr (join sep ss))"

text \<open>
  \<^verbatim>\<open>parts.filter(p => typeof p === 'string' || p.text).map(p => typeof p === 'string' ? p : p.text)\<close>
  and its twin \<^verbatim>\<open>parts.filter(p => p.text || typeof p === 'string').map(p => p.text || p)\<close>:
  a string has no \<^verbatim>\<open>text\<close> property, so both keep the strings and the truthy
  \<^verbatim>\<open>text\<close> fields, and both throw at an element that is \<^verbatim>\<open>null\<close>.
\<close>

fun partTexts :: "js list \<Rightarrow> error + js list" where
  "partTexts [] = Inr []"
| "partTexts (p # ps) =
     (if nullish p then Inl TypeError
      else case partTexts ps of
        Inl e \<Rightarrow> Inl e
      | Inr r \<Rightarrow>
          if isString p then Inr (p # r)
          else if truthy (get p ''text'') then Inr (get p ''text'' # r)
          else Inr r)"

text \<open>The role a raw message names, before normalisation.\<close>

definition rawRole :: "js \<Rightarrow> js" where
  "rawRole msg =
     (if truthy (get msg ''role'') then get msg ''role''
      else if truthy (get msg ''author'') then
        (if isString (get msg ''author'') then get msg ''author''
         else orElse (get (get msg ''author'') ''role'') (Str ''user''))
      else if truthy (get msg ''sender'') then get msg ''sender''
      else if truthy (get msg ''from'') then get msg ''from''
      else Str [])"

definition normalizeRole :: "string \<Rightarrow> string" where
  "normalizeRole r =
     (if r = ''model'' \<or> r = ''gemini'' \<or> r = ''ai'' \<or> r = ''bot'' then ''assistant''
      else if r = ''human'' then ''user''
      else r)"

text \<open>The content a raw message carries, before trimming.\<close>

definition rawContent :: "runtime \<Rightarrow> js \<Rightarrow> error + js" where
  "rawContent rt msg =
     (if truthy (get msg ''content'') then
        (if isString (get msg ''content'') then Inr (get msg ''content'')
         else if truthy (get (get msg ''content'') ''parts'') then
           (case get (get msg ''content'') ''parts'' of
              Arr ps \<Rightarrow>
                (case partTexts ps of
                   Inl e \<Rightarrow> Inl e
                 | Inr ts \<Rightarrow>
                     (case joinJs rt [CHR 0x0A] ts of
                        Inl e \<Rightarrow> Inl e
                      | Inr text \<Rightarrow> Inr (Str text)))
            | _ \<Rightarrow> Inl TypeError)
         else if truthy (get (get msg ''content'') ''text'') then
           Inr (get (get msg ''content'') ''text'')
         else Inr (Str []))
      else if truthy (get msg ''parts'') then
        (case get msg ''parts'' of
           Arr ps \<Rightarrow>
             (case partTexts ps of
                Inl e \<Rightarrow> Inl e
              | Inr ts \<Rightarrow>
                  (case joinJs rt [CHR 0x0A] ts of
                     Inl e \<Rightarrow> Inl e
                   | Inr text \<Rightarrow> Inr (Str text)))
         | _ \<Rightarrow> Inl TypeError)
      else if truthy (get msg ''text'') then Inr (get msg ''text'')
      else if truthy (get msg ''message'') then
        (if isString (get msg ''message'') then Inr (get msg ''message'')
         else Inr (Str (jsonStringify rt (get msg ''message''))))
      else Inr (Str []))"

definition rawTimestamp :: "js \<Rightarrow> js" where
  "rawTimestamp msg =
     orElse (get msg ''create_time'') (orElse (get msg ''created_at'')
       (orElse (get msg ''timestamp'') (orElse (get msg ''time'') (get msg ''date''))))"

text \<open>
  \<^verbatim>\<open>parseMessage(msg)\<close>; \<open>Inr None\<close> is the \<^verbatim>\<open>null\<close> it returns for "not a message".
  \<^verbatim>\<open>role.toLowerCase()\<close> and \<^verbatim>\<open>content.trim()\<close> throw unless the receiver is a string.
\<close>

definition parseMessage :: "runtime \<Rightarrow> js \<Rightarrow> error + message option" where
  "parseMessage rt msg =
     (if \<not> truthy msg then Inr None
      else case rawRole msg of
        Str r0 \<Rightarrow>
          (let r = normalizeRole (toLowerCase r0) in
           case rawContent rt msg of
             Inl e \<Rightarrow> Inl e
           | Inr (Str c) \<Rightarrow>
               if trim c = [] then Inr None
               else Inr (Some \<lparr> role = (if r = [] then Str ''user'' else Str r),
                                content = Str (trim c),
                                timestamp = parseTimestamp rt (rawTimestamp msg) \<rparr>)
           | Inr _ \<Rightarrow> Inl TypeError)
      | _ \<Rightarrow> Inl TypeError)"

section \<open>MessageGraphResolver\<close>

subsection \<open>Computed property reads\<close>

text \<open>
  The own enumerable properties of a value, in the order of \<^verbatim>\<open>Object.keys\<close>: an array
  and a string have their indices.
\<close>

fun ownProps :: "js \<Rightarrow> (string \<times> js) list" where
  "ownProps (Obj kvs) = kvs"
| "ownProps (Arr xs) = zip (map showNat [0..<length xs]) xs"
| "ownProps (Str s) = zip (map showNat [0..<length s]) (map (\<lambda>c. Str [c]) s)"
| "ownProps v = []"

text \<open>\<^verbatim>\<open>ToPropertyKey\<close>: a key that is not a string is converted to one, which can throw.\<close>

definition propertyKey :: "runtime \<Rightarrow> js \<Rightarrow> error + string" where
  "propertyKey rt key = (case key of Str s \<Rightarrow> Inr s | _ \<Rightarrow> toString rt key)"

fun lengthOf :: "js \<Rightarrow> js" where
  "lengthOf (Arr xs) = Num (of_nat (length xs))"
| "lengthOf (Str s) = Num (of_nat (length s))"
| "lengthOf v = get v ''length''"

text \<open>
  The property of a value under a string key, on a receiver that is neither \<^verbatim>\<open>null\<close> nor
  \<^verbatim>\<open>undefined\<close>: an own property first, then \<^verbatim>\<open>length\<close> of an array or string, then
  the prototype chain.
\<close>

definition member :: "runtime \<Rightarrow> js \<Rightarrow> string \<Rightarrow> js" where
  "member rt obj k =
     (case map_of (ownProps obj) k of
        Some v \<Rightarrow> v
      | None \<Rightarrow>
          if k = ''length'' \<and> (isArray obj \<or> isString obj) then lengthOf obj
          else if inherited rt obj k then Native
          else Undefined)"

text \<open>\<^verbatim>\<open>obj[key]\<close> on such a receiver.\<close>

definition index :: "runtime \<Rightarrow> js \<Rightarrow> js \<Rightarrow> error + js" where
  "index rt obj key =
     (case propertyKey rt key of Inl e \<Rightarrow> Inl e | Inr k \<Rightarrow> Inr (member rt obj k))"

subsection \<open>Leaf-chain mode\<close>

text \<open>
  What \<^verbatim>\<open>seen\<close> holds. A \<^verbatim>\<open>Set\<close> compares strings, numbers and booleans by value and
  objects and arrays by reference. The pointers the walk meets are the leaf pointer and
  the \<^verbatim>\<open>parent\<close> fields of the nodes, so a reference is named by where it is stored:
  the leaf pointer, or the \<^verbatim>\<open>parent\<close> field of the node under a given key.
\<close>

datatype ptrId = ByValue js | LeafRef | ParentRef string

definition identOf :: "ptrId \<Rightarrow> js \<Rightarrow> ptrId" where
  "identOf origin v = (case v of Arr xs \<Rightarrow> origin | Obj kvs \<Rightarrow> origin | _ \<Rightarrow> ByValue v)"

fun stringsOf :: "js list \<Rightarrow> string list" where
  "stringsOf [] = []"
| "stringsOf (Str s # ps) = s # stringsOf ps"
| "stringsOf (p # ps) = stringsOf ps"

text \<open>The body of the loop for one node: the message it contributes, if any.\<close>

definition chainEntry :: "runtime \<Rightarrow> js \<Rightarrow> error + message option" where
  "chainEntry rt node =
     (let msg = get node ''message'' in
      if \<not> truthy msg then Inr None
      else
        let author = (if nullish (get msg ''author'') then Undefined
                      else get (get msg ''author'') ''role'');
            content = orElse (get msg ''content'') (Obj []);
            parts = orElse (get content ''parts'') (Arr [])
        in case parts of
             Arr ps \<Rightarrow>
               (let text = trim (join [CHR 0x0A] (stringsOf ps)) in
                if (author = Str ''user'' \<or> author = Str ''assistant'') \<and> text \<noteq> []
                then Inr (Some \<lparr> role = (if author = Str ''assistant'' then Str ''assistant''
                                          else Str ''user''),
                                  content = Str text,
                                  timestamp = parseTimestamp rt (get msg ''create_time'') \<rparr>)
                else Inr None)
           | _ \<Rightarrow> Inl TypeError)"

definition pushOpt :: "'a list \<Rightarrow> 'a option \<Rightarrow> 'a list" where
  "pushOpt xs x = (case x of None \<Rightarrow> xs | Some y \<Rightarrow> xs @ [y])"

text \<open>Every identity a \<^verbatim>\<open>parent\<close> field of the mapping can have.\<close>

definition parentIdents :: "js \<Rightarrow> ptrId set" where
  "parentIdents mapping =
     insert (ByValue Undefined)
       ((\<lambda>(k, n). identOf (ParentRef k) (get n ''parent'')) ` set (ownProps mapping))"

text \<open>
  The \<^verbatim>\<open>while\<close> loop: \<open>current\<close> with the place it was read from, \<open>seen\<close> and
  \<open>chain\<close> in the order the elements were added. The test of the loop reads
  \<^verbatim>\<open>mapping[current]\<close>, which throws when \<open>current\<close> cannot be converted to a key.
\<close>

function walk ::
  "runtime \<Rightarrow> js \<Rightarrow> ptrId list \<Rightarrow> message list \<Rightarrow> ptrId \<Rightarrow> js
     \<Rightarrow> error + (message list \<times> ptrId list)"
where
  "walk rt mapping seen chain origin current =
     (if \<not> truthy current then Inr (chain, seen)
      else case propertyKey rt current of
        Inl e \<Rightarrow> Inl e
      | Inr k \<Rightarrow>
          (let node = member rt mapping k in
           if truthy node \<and> identOf origin current \<notin> set seen then
             (case chainEntry rt node of
                Inl e \<Rightarrow> Inl e
              | Inr entry \<Rightarrow>
                  walk rt mapping (seen @ [identOf origin current]) (pushOpt chain entry)
                    (ParentRef k) (get node ''parent''))
           else Inr (chain, seen)))"
  by pat_completeness auto

termination walk
proof (relation "measure (\<lambda>(rt, mapping, seen, chain, origin, current).
          card (insert (identOf origin current) (parentIdents mapping) - set seen))")
  show "wf (measure (\<lambda>(rt, mapping, seen, chain, origin, current).
          card (insert (identOf origin current) (parentIdents mapping) - set seen)))"
    by simp
next
  fix rt mapping seen chain origin current k node and entry :: "message option"
  assume n: "node = member rt mapping k"
    and g: "truthy node \<and> identOf origin current \<notin> set seen"
  let ?c = "identOf origin current"
  let ?p = "identOf (ParentRef k) (get node ''parent'')"
  have p: "?p \<in> parentIdents mapping"
  proof (cases "map_of (ownProps mapping) k")
    case None
    then have "node =
        (if k = ''length'' \<and> (isArray mapping \<or> isString mapping) then lengthOf mapping
         else if inherited rt mapping k then Native else Undefined)"
      by (simp add: n member_def)
    moreover have "isArray mapping \<or> isString mapping
        \<Longrightarrow> get (lengthOf mapping) ''parent'' = Undefined"
      by (cases mapping) simp_all
    ultimately have "get node ''parent'' = Undefined"
      by simp
    then show ?thesis by (simp add: parentIdents_def identOf_def)
  next
    case (Some v)
    then have "(k, v) \<in> set (ownProps mapping)"
      by (rule map_of_SomeD)
    moreover from Some have "node = v" by (simp add: n member_def)
    ultimately show ?thesis by (force simp: parentIdents_def)
  qed
  have "insert ?p (parentIdents mapping) - set (seen @ [?c])
          \<subset> insert ?c (parentIdents mapping) - set seen"
    using g p by auto
  moreover have "finite (insert ?c (parentIdents mapping) - set seen)"
    by (simp add: parentIdents_def)
  ultimately have "card (insert ?p (parentIdents mapping) - set (seen @ [?c]))
          < card (insert ?c (parentIdents mapping) - set seen)"
    by (rule psubset_card_mono[rotated])
  then show "((rt, mapping, seen @ [?c], pushOpt chain entry, ParentRef k, get node ''parent''),
           rt, mapping, seen, chain, origin, current)
          \<in> measure (\<lambda>(rt, mapping, seen, chain, origin, current).
          card (insert (identOf origin current) (parentIdents mapping) - set seen))"
    by simp
qed

declare walk.simps [simp del]

subsection \<open>Fallback sort mode\<close>

text \<open>
  \<^verbatim>\<open>{ id, ...node }\<close>: the key first, then the node's own properties, one of which
  may overwrite \<^verbatim>\<open>id\<close> in place.
\<close>

definition spreadNode :: "string \<Rightarrow> js \<Rightarrow> js" where
  "spreadNode k node =
     Obj ((''id'', (case map_of (ownProps node) ''id'' of None \<Rightarrow> Str k | Some v \<Rightarrow> v))
          # filter (\<lambda>(k', v). k' \<noteq> ''id'') (ownProps node))"

text \<open>The body of \<^verbatim>\<open>sortedNodes.forEach\<close> for one node.\<close>

definition sortedEntry :: "runtime \<Rightarrow> js \<Rightarrow> error + message option" where
  "sortedEntry rt node =
     (let msg = get node ''message'' in
      if truthy (get msg ''author'') \<and> truthy (get msg ''content'') then
        (let r = orElse (get (get msg ''author'') ''role'') (Str ''user'');
             c = (if truthy (get (get msg ''content'') ''parts'') then
                    (case get (get msg ''content'') ''parts'' of
                       Arr ps \<Rightarrow> Inr (join [CHR 0x0A] (stringsOf ps))
                     | _ \<Rightarrow> Inl TypeError)
                  else (case get msg ''content'' of Str s \<Rightarrow> Inr s | _ \<Rightarrow> Inr []))
         in case c of
              Inl e \<Rightarrow> Inl e
            | Inr text \<Rightarrow>
                if trim text \<noteq> [] \<and> r \<noteq> Str ''system''
                then Inr (Some \<lparr> role = (if r = Str ''assistant'' \<or> r = Str ''model''
                                          then Str ''assistant'' else r),
                                  content = Str (trim text),
                                  timestamp = parseTimestamp rt (get msg ''create_time'') \<rparr>)
                else Inr None)
      else Inr None)"

text \<open>\<^verbatim>\<open>xs.forEach(x => { const m = f(x); if (m) out.push(m) })\<close>, stopping at a throw.\<close>

fun collect :: "('a \<Rightarrow> error + 'b option) \<Rightarrow> 'a list \<Rightarrow> error + 'b list" where
  "collect f [] = Inr []"
| "collect f (x # xs) =
     (case f x of
        Inl e \<Rightarrow> Inl e
      | Inr m \<Rightarrow>
          (case collect f xs of
             Inl e \<Rightarrow> Inl e
           | Inr ms \<Rightarrow> Inr (case m of None \<Rightarrow> ms | Some y \<Rightarrow> y # ms)))"


text \<open>
  \<^verbatim>\<open>parseMapping(mapping, currentNode = null)\<close>. The first test reads
  \<^verbatim>\<open>mapping[currentNode]\<close> when \<^verbatim>\<open>currentNode\<close> is truthy.
\<close>

definition parseMapping :: "runtime \<Rightarrow> js \<Rightarrow> js \<Rightarrow> error + message list" where
  "parseMapping rt mapping currentNode =
     (if nullish mapping then Inl TypeError
      else case (if truthy currentNode then index rt mapping currentNode else Inr Undefined) of
        Inl e \<Rightarrow> Inl e
      | Inr leaf \<Rightarrow>
          if truthy currentNode \<and> truthy leaf then
            (case walk rt mapping [] [] LeafRef currentNode of
               Inl e \<Rightarrow> Inl e
             | Inr (chain, seen) \<Rightarrow> Inr (rev chain))
          else
            (case sortByCreateTime rt
                    (filter (\<lambda>node. truthy (get node ''message'')
                                     \<and> truthy (get (get node ''message'') ''content''))
                       (map (\<lambda>(k, node). spreadNode k node) (ownProps mapping))) of
               Inl e \<Rightarrow> Inl e
             | Inr sortedNodes \<Rightarrow> collect (sortedEntry rt) sortedNodes))"

section \<open>HtmlTextExtractor\<close>

text \<open>
  \<^verbatim>\<open>stripHtml(html)\<close>: the replacements are the runtime's, the guard and the final
  \<^verbatim>\<open>trim\<close> are here. \<^verbatim>\<open>html.replace\<close> throws unless \<^verbatim>\<open>html\<close> is a string.
\<close>

definition stripHtml :: "runtime \<Rightarrow> js \<Rightarrow> error + string" where
  "stripHtml rt html =
     (if \<not> truthy html then Inr []
      else case html of Str s \<Rightarrow> Inr (trim (replaceTags rt s)) | _ \<Rightarrow> Inl TypeError)"

section \<open>ConversationNormalizer\<close>

record conversation =
  conv_id :: js
  title :: js
  createTime :: "date option"
  updateTime :: "date option"
  messages :: "message list"
  isChatGPT :: bool

text \<open>The two Japanese literals of the source, as their UTF-8 bytes.\<close>

definition kaiwa :: string where
  "kaiwa = [CHR 0xE4, CHR 0xBC, CHR 0x9A, CHR 0xE8, CHR 0xA9, CHR 0xB1]"

definition sentMessagePrefix :: string where
  "sentMessagePrefix =
     [CHR 0xE9, CHR 0x80, CHR 0x81, CHR 0xE4, CHR 0xBF, CHR 0xA1, CHR 0xE3, CHR 0x81, CHR 0x97,
      CHR 0xE3, CHR 0x81, CHR 0x9F, CHR 0xE3, CHR 0x83, CHR 0xA1, CHR 0xE3, CHR 0x83, CHR 0x83,
      CHR 0xE3, CHR 0x82, CHR 0xBB, CHR 0xE3, CHR 0x83, CHR 0xBC, CHR 0xE3, CHR 0x82, CHR 0xB8,
      CHR '':'']"

text \<open>\<^verbatim>\<open>xs.forEach(x => { const m = parseMessage(x); if (m) out.push(m) })\<close> on any receiver.\<close>

definition parseMessages :: "runtime \<Rightarrow> js \<Rightarrow> error + message list" where
  "parseMessages rt msgs =
     (case msgs of Arr ms \<Rightarrow> collect (parseMessage rt) ms | _ \<Rightarrow> Inl TypeError)"

subsection \<open>Array format\<close>

fun firstUserNode :: "(string \<times> js) list \<Rightarrow> error + string option" where
  "firstUserNode [] = Inr None"
| "firstUserNode ((nodeId, node) # rest) =
     (if nullish node then Inl TypeError
      else if truthy (get node ''message'')
            \<and> truthy (get (get node ''message'') ''author'')
            \<and> get (get (get node ''message'') ''author'') ''role'' = Str ''user''
            \<and> truthy (get (get node ''message'') ''content'')
            \<and> get (get (get node ''message'') ''content'') ''content_type'' = Str ''text''
      then Inr (Some nodeId)
      else firstUserNode rest)"

text \<open>\<^verbatim>\<open>extractConversationIdFromMapping(mapping)\<close>\<close>

definition extractConversationIdFromMapping :: "js \<Rightarrow> error + js" where
  "extractConversationIdFromMapping mapping =
     (case firstUserNode (ownProps mapping) of
        Inl e \<Rightarrow> Inl e
      | Inr (Some nodeId) \<Rightarrow> Inr (Str nodeId)
      | Inr None \<Rightarrow>
          (case find (\<lambda>nodeId. nodeId \<noteq> ''client-created-root''
                                \<and> \<not> startsWith nodeId ''client-'')
                  (map fst (ownProps mapping)) of
             Some nodeId \<Rightarrow> Inr (Str nodeId)
           | None \<Rightarrow> Inr Null))"

definition conversationId :: "js \<Rightarrow> error + js" where
  "conversationId conv =
     (let c1 = orElse (get conv ''id'') (orElse (get conv ''conversation_id'')
                 (orElse (get conv ''chat_id'') (get conv ''uuid'')));
          c2 = (if \<not> truthy c1 \<and> truthy (get conv ''current_node'')
                then get conv ''current_node'' else c1)
      in if \<not> truthy c2 \<and> truthy (get conv ''mapping'')
         then extractConversationIdFromMapping (get conv ''mapping'')
         else Inr c2)"

text \<open>
  The body of \<^verbatim>\<open>conversations.forEach\<close> in \<^verbatim>\<open>parseArrayFormat\<close>: the conversation it
  pushes, if it pushes one.
\<close>

definition arrayConversation :: "runtime \<Rightarrow> js \<Rightarrow> nat \<Rightarrow> error + conversation option" where
  "arrayConversation rt conv i =
     (if nullish conv then Inl TypeError
      else case conversationId conv of
        Inl e \<Rightarrow> Inl e
      | Inr cid \<Rightarrow>
          (let msgs = orElse (get conv ''messages'') (orElse (get conv ''mapping'')
                        (orElse (get conv ''content'') (orElse (get conv ''history'') (Arr []))));
               conversation = \<lparr>
                 conv_id = orElse cid (Str (''conversation_'' @ showNat (i + 1))),
                 title = orElse (get conv ''title'') (orElse (get conv ''name'')
                           (Str (kaiwa @ '' '' @ showNat (i + 1)))),
                 createTime = parseTimestamp rt
                   (orElse (get conv ''create_time'') (orElse (get conv ''created_at'')
                     (orElse (get conv ''created'') (get conv ''timestamp'')))),
                 updateTime = parseTimestamp rt
                   (orElse (get conv ''update_time'') (orElse (get conv ''updated_at'')
                     (orElse (get conv ''updated'') (get conv ''modified'')))),
                 messages = [],
                 isChatGPT = False \<rparr>;
               parsed =
                 (if truthy (get conv ''mapping'') then
                    (case parseMapping rt (get conv ''mapping'') (get conv ''current_node'') of
                       Inl e \<Rightarrow> Inl e
                     | Inr ms \<Rightarrow> Inr (conversation \<lparr> messages := ms, isChatGPT := True \<rparr>))
                  else if isArray msgs then
                    (case parseMessages rt msgs of
                       Inl e \<Rightarrow> Inl e
                     | Inr ms \<Rightarrow> Inr (conversation \<lparr> messages := ms \<rparr>))
                  else Inr conversation)
           in case parsed of
                Inl e \<Rightarrow> Inl e
              | Inr c \<Rightarrow>
                  if messages c \<noteq> [] \<or> truthy (get conv ''title'') then Inr (Some c)
                  else Inr None))"

text \<open>\<^verbatim>\<open>xs.forEach((x, index) => ...)\<close> with a body that pushes at most one element.\<close>

definition collectIndexed :: "(js \<Rightarrow> nat \<Rightarrow> error + 'b option) \<Rightarrow> js list \<Rightarrow> error + 'b list" where
  "collectIndexed f xs = collect (\<lambda>(i, x). f x i) (enumerate 0 xs)"

text \<open>
  \<^verbatim>\<open>parseArrayFormat(conversations)\<close>: the conversations it appends to
  \<^verbatim>\<open>this.conversations\<close>. \<^verbatim>\<open>forEach\<close> exists on arrays only.
\<close>

definition parseArrayFormat :: "runtime \<Rightarrow> js \<Rightarrow> error + conversation list" where
  "parseArrayFormat rt conversations =
     (case conversations of
        Arr cs \<Rightarrow> collectIndexed (arrayConversation rt) cs
      | _ \<Rightarrow> Inl TypeError)"

subsection \<open>Takeout format\<close>

definition takeoutConversation :: "runtime \<Rightarrow> js \<Rightarrow> nat \<Rightarrow> error + conversation option" where
  "takeoutConversation rt chat i =
     (if nullish chat then Inl TypeError
      else case parseMessages rt
                  (orElse (get chat ''messages'') (orElse (get chat ''contents'')
                     (orElse (get chat ''turns'') (Arr [])))) of
        Inl e \<Rightarrow> Inl e
      | Inr ms \<Rightarrow>
          if ms \<noteq> [] then
            Inr (Some \<lparr>
              conv_id = orElse (get chat ''id'') (Str (''chat_'' @ showNat (i + 1))),
              title = orElse (get chat ''title'') (orElse (get chat ''name'')
                        (Str (kaiwa @ '' '' @ showNat (i + 1)))),
              createTime = parseTimestamp rt
                (orElse (get chat ''createTime'') (get chat ''created'')),
              updateTime = parseTimestamp rt
                (orElse (get chat ''updateTime'') (get chat ''modified'')),
              messages = ms,
              isChatGPT = False \<rparr>)
          else Inr None)"

text \<open>\<^verbatim>\<open>parseTakeoutFormat(chats)\<close>\<close>

definition parseTakeoutFormat :: "runtime \<Rightarrow> js \<Rightarrow> error + conversation list" where
  "parseTakeoutFormat rt chats =
     (case chats of
        Arr cs \<Rightarrow> collectIndexed (takeoutConversation rt) cs
      | _ \<Rightarrow> Inr [])"

subsection \<open>Gemini activity format\<close>

text \<open>\<^verbatim>\<open>v > 0\<close>: the operand is converted to a number, an object or array through its string.\<close>

fun positive :: "runtime \<Rightarrow> js \<Rightarrow> error + bool" where
  "positive rt (Num n) = Inr (n > 0)"
| "positive rt (Bool b) = Inr b"
| "positive rt (Str s) =
     Inr (case stringToNumber rt s of None \<Rightarrow> False | Some n \<Rightarrow> n > 0)"
| "positive rt Undefined = Inr False"
| "positive rt Null = Inr False"
| "positive rt v =
     (case toString rt v of
        Inl e \<Rightarrow> Inl e
      | Inr s \<Rightarrow> Inr (case stringToNumber rt s of None \<Rightarrow> False | Some n \<Rightarrow> n > 0))"

text \<open>\<^verbatim>\<open>new Date(v)\<close> with one argument: an object or array is parsed as its string.\<close>

fun newDate :: "runtime \<Rightarrow> js \<Rightarrow> error + date" where
  "newDate rt (Num n) = Inr (timeClip n)"
| "newDate rt (Str s) = Inr (dateParse rt s)"
| "newDate rt (Bool b) = Inr (Date (if b then 1 else 0))"
| "newDate rt Null = Inr (Date 0)"
| "newDate rt Undefined = Inr InvalidDate"
| "newDate rt v =
     (case toString rt v of Inl e \<Rightarrow> Inl e | Inr s \<Rightarrow> Inr (dateParse rt s))"

definition activityConversation :: "runtime \<Rightarrow> js \<Rightarrow> nat \<Rightarrow> error + conversation option" where
  "activityConversation rt activity i =
     (if nullish activity then Inl TypeError
      else
        let userMessage =
              (if truthy (get activity ''title'') then
                 (case get activity ''title'' of
                    Str t \<Rightarrow>
                      if startsWith t sentMessagePrefix
                      then Inr (trim (replaceFirst t sentMessagePrefix []))
                      else Inr t
                  | _ \<Rightarrow> Inl TypeError)
               else Inr []);
            item = get activity ''safeHtmlItem'';
            aiResponse =
              (if truthy item then
                 (case positive rt (lengthOf item) of
                    Inl e \<Rightarrow> Inl e
                  | Inr False \<Rightarrow> Inr []
                  | Inr True \<Rightarrow>
                      (case index rt item (Num 0) of
                         Inl e \<Rightarrow> Inl e
                       | Inr first \<Rightarrow>
                           if nullish first then Inl TypeError
                           else stripHtml rt (orElse (get first ''html'') (Str []))))
               else Inr []);
            time = (if truthy (get activity ''time'')
                    then (case newDate rt (get activity ''time'') of
                            Inl e \<Rightarrow> Inl e
                          | Inr d \<Rightarrow> Inr (Some d))
                    else Inr None)
        in case userMessage of
             Inl e \<Rightarrow> Inl e
           | Inr u \<Rightarrow>
               (case aiResponse of
                  Inl e \<Rightarrow> Inl e
                | Inr a \<Rightarrow>
                  (case time of
                     Inl e \<Rightarrow> Inl e
                   | Inr stamp \<Rightarrow>
                    (let short = take 50 u @ (if length u > 50 then ''...'' else []);
                         ms = (if u \<noteq> []
                               then [\<lparr> role = Str ''user'', content = Str u,
                                       timestamp = stamp \<rparr>]
                               else [])
                              @ (if trim a \<noteq> []
                                 then [\<lparr> role = Str ''assistant'', content = Str (trim a),
                                         timestamp = stamp \<rparr>]
                                 else [])
                     in if ms \<noteq> [] then
                          Inr (Some \<lparr>
                            conv_id = Str (''gemini_activity_'' @ showNat (i + 1)),
                            title = (if short \<noteq> [] then Str short
                                     else Str (kaiwa @ '' '' @ showNat (i + 1))),
                            createTime = stamp,
                            updateTime = stamp,
                            messages = ms,
                            isChatGPT = False \<rparr>)
                        else Inr None))))"

text \<open>\<^verbatim>\<open>parseGeminiActivityFormat(activities)\<close>: oldest first, so in reverse.\<close>

definition parseGeminiActivityFormat :: "runtime \<Rightarrow> js \<Rightarrow> error + conversation list" where
  "parseGeminiActivityFormat rt activities =
     (case activities of
        Arr as \<Rightarrow> collectIndexed (activityConversation rt) (rev as)
      | _ \<Rightarrow> Inr [])"

subsection \<open>Single conversation and API format\<close>

text \<open>\<^verbatim>\<open>parseSingleConversation(data)\<close>, called with \<^verbatim>\<open>data\<close> not \<^verbatim>\<open>null\<close>.\<close>

definition parseSingleConversation :: "runtime \<Rightarrow> js \<Rightarrow> error + conversation list" where
  "parseSingleConversation rt data =
     (if nullish data then Inl TypeError
      else case parseMessages rt
                  (orElse (get data ''messages'') (orElse (get data ''content'')
                     (orElse (get data ''history'') (Arr [])))) of
        Inl e \<Rightarrow> Inl e
      | Inr ms \<Rightarrow>
          if ms \<noteq> [] then
            Inr [\<lparr>
              conv_id = orElse (get data ''id'') (Str ''conversation_1''),
              title = orElse (get data ''title'') (orElse (get data ''name'') (Str kaiwa)),
              createTime = parseTimestamp rt
                (orElse (get data ''create_time'') (get data ''created_at'')),
              updateTime = parseTimestamp rt
                (orElse (get data ''update_time'') (get data ''updated_at'')),
              messages = ms,
              isChatGPT = False \<rparr>]
          else Inr [])"

text \<open>The inner \<^verbatim>\<open>parts.forEach\<close> of \<^verbatim>\<open>parseApiFormat\<close> for the role of one turn.\<close>

fun apiParts :: "js \<Rightarrow> js list \<Rightarrow> error + message list" where
  "apiParts r [] = Inr []"
| "apiParts r (part # ps) =
     (if nullish part then Inl TypeError
      else case apiParts r ps of
        Inl e \<Rightarrow> Inl e
      | Inr ms \<Rightarrow>
          if truthy (get part ''text'')
          then Inr (\<lparr> role = (if r = Str ''model'' then Str ''assistant'' else r),
                       content = get part ''text'',
                       timestamp = None \<rparr> # ms)
          else Inr ms)"

fun apiContents :: "js list \<Rightarrow> error + message list" where
  "apiContents [] = Inr []"
| "apiContents (c # cs) =
     (if nullish c then Inl TypeError
      else case orElse (get c ''parts'') (Arr []) of
        Arr ps \<Rightarrow>
          (case apiParts (orElse (get c ''role'') (Str ''user'')) ps of
             Inl e \<Rightarrow> Inl e
           | Inr ms \<Rightarrow>
               (case apiContents cs of Inl e \<Rightarrow> Inl e | Inr ms' \<Rightarrow> Inr (ms @ ms')))
      | _ \<Rightarrow> Inl TypeError)"

text \<open>\<^verbatim>\<open>parseApiFormat(data)\<close>, called with \<^verbatim>\<open>data\<close> not \<^verbatim>\<open>null\<close>.\<close>

definition parseApiFormat :: "runtime \<Rightarrow> js \<Rightarrow> error + conversation list" where
  "parseApiFormat rt data =
     (if nullish data then Inl TypeError
      else case get data ''contents'' of
        Arr cs \<Rightarrow>
          (case apiContents cs of
             Inl e \<Rightarrow> Inl e
           | Inr ms \<Rightarrow>
               if ms \<noteq> [] then
                 Inr [\<lparr> conv_id = Str ''api_conversation_1'',
                        title = Str kaiwa,
                        createTime = Some (now rt),
                        updateTime = Some (now rt),
                        messages = ms,
                        isChatGPT = False \<rparr>]
               else Inr [])
      | _ \<Rightarrow> Inl TypeError)"

subsection \<open>Generic format\<close>

definition conversationKey :: "string \<Rightarrow> bool" where
  "conversationKey k =
     (includesStr (toLowerCase k) ''conversation'' \<or> includesStr (toLowerCase k) ''chat''
      \<or> includesStr (toLowerCase k) ''message'' \<or> includesStr (toLowerCase k) ''history'')"

definition looksLikeConversations :: "js list \<Rightarrow> bool" where
  "looksLikeConversations xs =
     (case xs of
        [] \<Rightarrow> False
      | firstItem # rest \<Rightarrow>
          truthy firstItem
          \<and> (truthy (get firstItem ''messages'') \<or> truthy (get firstItem ''content'')
             \<or> truthy (get firstItem ''parts'') \<or> truthy (get firstItem ''role'')))"

text \<open>
  \<^verbatim>\<open>findConversations(obj)\<close> of \<^verbatim>\<open>parseGenericFormat\<close>, returning what it appends to
  \<^verbatim>\<open>this.conversations\<close>. The keys of an array are its indices, which consist of digits
  and so never pass the test on the key: the loop over an array only descends
  (\<open>findValues\<close>); the loop over an object is \<open>findProps\<close>.
\<close>

fun findConversations :: "runtime \<Rightarrow> js \<Rightarrow> error + conversation list"
  and findValues :: "runtime \<Rightarrow> js list \<Rightarrow> error + conversation list"
  and findProps :: "runtime \<Rightarrow> (string \<times> js) list \<Rightarrow> error + conversation list"
where
  "findConversations rt (Arr xs) =
     (if looksLikeConversations xs then parseArrayFormat rt (Arr xs) else findValues rt xs)"
| "findConversations rt (Obj kvs) = findProps rt kvs"
| "findConversations rt v = Inr []"
| "findValues rt [] = Inr []"
| "findValues rt (v # vs) =
     (case findConversations rt v of
        Inl e \<Rightarrow> Inl e
      | Inr a \<Rightarrow> (case findValues rt vs of Inl e \<Rightarrow> Inl e | Inr b \<Rightarrow> Inr (a @ b)))"
| "findProps rt [] = Inr []"
| "findProps rt ((k, v) # kvs) =
     (case (if conversationKey k \<and> isArray v then parseArrayFormat rt v else Inr []) of
        Inl e \<Rightarrow> Inl e
      | Inr a \<Rightarrow>
          (case findConversations rt v of
             Inl e \<Rightarrow> Inl e
           | Inr b \<Rightarrow>
               (case findProps rt kvs of Inl e \<Rightarrow> Inl e | Inr c \<Rightarrow> Inr (a @ b @ c))))"

text \<open>\<^verbatim>\<open>parseGenericFormat(data)\<close>\<close>

definition parseGenericFormat :: "runtime \<Rightarrow> js \<Rightarrow> error + conversation list" where
  "parseGenericFormat rt data = findConversations rt data"

section \<open>FormatDetector\<close>

datatype source = AI | Gemini | ChatGPT

definition myActivityJa :: string where
  "myActivityJa =
     [CHR 0xE3, CHR 0x83, CHR 0x9E, CHR 0xE3, CHR 0x82, CHR 0xA4, CHR 0xE3, CHR 0x82, CHR 0xA2,
      CHR 0xE3, CHR 0x82, CHR 0xAF, CHR 0xE3, CHR 0x83, CHR 0x86, CHR 0xE3, CHR 0x82, CHR 0xA3,
      CHR 0xE3, CHR 0x83, CHR 0x93, CHR 0xE3, CHR 0x83, CHR 0x86, CHR 0xE3, CHR 0x82, CHR 0xA3]
     @ ''.json''"

text \<open>\<^verbatim>\<open>detectSourceFromFileName()\<close>, from the initial \<^verbatim>\<open>'AI'\<close>.\<close>

definition detectSourceFromFileName :: "string \<Rightarrow> source" where
  "detectSourceFromFileName fileName =
     (if fileName = [] then AI
      else if list_ex (\<lambda>pattern. includesStr (toLowerCase fileName) (toLowerCase pattern))
                [''myactivity.json'', myActivityJa, ''my_activity.json'', ''gemini'']
      then Gemini
      else if list_ex (\<lambda>pattern. includesStr (toLowerCase fileName) (toLowerCase pattern))
                [''conversations.json'', ''chatgpt'']
      then ChatGPT
      else AI)"

text \<open>\<^verbatim>\<open>header.includes('Gemini')\<close> on a truthy header: a string or an array has the method.\<close>

definition headerIncludesGemini :: "js \<Rightarrow> error + bool" where
  "headerIncludesGemini header =
     (case header of
        Str s \<Rightarrow> Inr (includesStr s ''Gemini'')
      | Arr xs \<Rightarrow> Inr (Str ''Gemini'' \<in> set xs)
      | _ \<Rightarrow> Inl TypeError)"

text \<open>
  The chain of tests of \<^verbatim>\<open>parseConversations()\<close>: the parser that runs on
  \<^verbatim>\<open>this.jsonData\<close> and the source the branch sets, \<open>fromName\<close> being the source
  detected from the file name. Reading a property of \<^verbatim>\<open>null\<close> throws.
\<close>

definition dispatch ::
  "runtime \<Rightarrow> source \<Rightarrow> js \<Rightarrow> error + (source \<times> conversation list)"
where
  "dispatch rt fromName jsonData =
     (let tagged = (\<lambda>src r. case r of Inl e \<Rightarrow> Inl e | Inr cs \<Rightarrow> Inr (src, cs)) in
      case jsonData of
        Arr (first # rest) \<Rightarrow>
          (if nullish first then Inl TypeError
           else case (if truthy (get first ''header'')
                      then headerIncludesGemini (get first ''header'') else Inr False) of
             Inl e \<Rightarrow> Inl e
           | Inr True \<Rightarrow> tagged Gemini (parseGeminiActivityFormat rt jsonData)
           | Inr False \<Rightarrow>
               if truthy (get first ''mapping'')
               then tagged ChatGPT (parseArrayFormat rt jsonData)
               else tagged fromName (parseArrayFormat rt jsonData))
      | Arr [] \<Rightarrow> tagged fromName (parseArrayFormat rt jsonData)
      | _ \<Rightarrow>
          if nullish jsonData then Inl TypeError
          else if truthy (get jsonData ''conversations'')
          then tagged fromName (parseArrayFormat rt (get jsonData ''conversations''))
          else if truthy (get jsonData ''chats'') \<or> truthy (get jsonData ''history'')
          then tagged Gemini
                 (parseTakeoutFormat rt (orElse (get jsonData ''chats'') (get jsonData ''history'')))
          else if truthy (get jsonData ''messages'') \<or> truthy (get jsonData ''content'')
          then tagged fromName (parseSingleConversation rt jsonData)
          else if truthy (get jsonData ''contents'')
          then tagged Gemini (parseApiFormat rt jsonData)
          else tagged fromName (parseGenericFormat rt jsonData))"

text \<open>
  \<^verbatim>\<open>parseConversations()\<close> on \<^verbatim>\<open>this.fileName\<close> and \<^verbatim>\<open>this.jsonData\<close>: the detected
  source and \<^verbatim>\<open>this.conversations\<close>, or the exception that \<^verbatim>\<open>processFile\<close> catches.
\<close>

definition parseConversations ::
  "runtime \<Rightarrow> string \<Rightarrow> js \<Rightarrow> error + (source \<times> conversation list)"
where
  "parseConversations rt fileName jsonData =
     (case dispatch rt (detectSourceFromFileName fileName) jsonData of
        Inl e \<Rightarrow> Inl e
      | Inr (src, cs) \<Rightarrow>
          Inr (if src = AI \<and> list_ex isChatGPT cs then ChatGPT else src, cs))"

section \<open>Inputs on which no step throws\<close>



text \<open>A message of a mapping node whose \<^verbatim>\<open>content.parts\<close> is absent, falsy or an array.\<close>

definition partsOk :: "js \<Rightarrow> bool" where
  "partsOk msg =
     (\<not> truthy (get (get msg ''content'') ''parts'')
      \<or> isArray (get (get msg ''content'') ''parts''))"


section \<open>Linear parent chains\<close>

text \<open>
  Nodes with their ids, the leaf first: the \<^verbatim>\<open>parent\<close> of each node is the id of
  the next one.
\<close>

fun parentChain :: "(string \<times> js) list \<Rightarrow> bool" where
  "parentChain [] = True"
| "parentChain [(k, n)] = True"
| "parentChain ((k, n) # (k', n') # rest) =
     (get n ''parent'' = Str k' \<and> parentChain ((k', n') # rest))"

text \<open>
  What the specification says a node of the chain contributes (section 4.4, leaf-chain
  mode): a message when the node's message has role \<^verbatim>\<open>user\<close> or \<^verbatim>\<open>assistant\<close> and
  non-empty text, the text being the string entries of \<^verbatim>\<open>content.parts\<close> joined with a
  newline and trimmed; nothing otherwise.
\<close>

definition nodeText :: "js \<Rightarrow> string" where
  "nodeText node =
     (case get (get (get node ''message'') ''content'') ''parts'' of
        Arr ps \<Rightarrow> trim (join [CHR 0x0A] (map (\<lambda>p. case p of Str t \<Rightarrow> t | _ \<Rightarrow> [])
                                            (filter isString ps)))
      | _ \<Rightarrow> [])"

definition specEntries :: "runtime \<Rightarrow> js \<Rightarrow> message list" where
  "specEntries rt node =
     (if get (get (get node ''message'') ''author'') ''role'' \<in> {Str ''user'', Str ''assistant''}
         \<and> nodeText node \<noteq> []
      then [\<lparr> role = get (get (get node ''message'') ''author'') ''role'',
               content = Str (nodeText node),
               timestamp = parseTimestamp rt (get (get node ''message'') ''create_time'') \<rparr>]
      else [])"

section \<open>Retained conversations\<close>

text \<open>The values nested in a document, the document itself first.\<close>

fun subvalues :: "js \<Rightarrow> js list"
  and subvaluesOfList :: "js list \<Rightarrow> js list"
  and subvaluesOfProps :: "(string \<times> js) list \<Rightarrow> js list"
where
  "subvalues (Arr xs) = Arr xs # subvaluesOfList xs"
| "subvalues (Obj kvs) = Obj kvs # subvaluesOfProps kvs"
| "subvalues v = [v]"
| "subvaluesOfList [] = []"
| "subvaluesOfList (x # xs) = subvalues x @ subvaluesOfList xs"
| "subvaluesOfProps [] = []"
| "subvaluesOfProps ((k, x) # kvs) = subvalues x @ subvaluesOfProps kvs"

text \<open>
  A conversation list made by the array-format parser from a pool of values: the
  outputs of \<^verbatim>\<open>parseArrayFormat\<close> on values of the pool, one after the other.
\<close>

definition arrayFormatOutputs :: "runtime \<Rightarrow> js list \<Rightarrow> conversation list \<Rightarrow> bool" where
  "arrayFormatOutputs rt pool cs \<longleftrightarrow>
     (\<exists>sites outs. list_all2 (\<lambda>site out. parseArrayFormat rt site = Inr out) sites outs
        \<and> set sites \<subseteq> set pool \<and> cs = concat outs)"

section \<open>A runtime to evaluate examples with\<close>

text \<open>
  The examples below are evaluated with this runtime. The sort leaves its input as it is
  and no name is inherited; no example reaches the number printer, the number parser, the
  rounded product or the date parser.
\<close>

definition sampleRuntime :: runtime where
  "sampleRuntime = \<lparr>
     numberToString = (\<lambda>q. ''NaN''),
     jsonStringify = (\<lambda>v. ''{}''),
     stringToNumber = (\<lambda>s. None),
     timesThousand = (\<lambda>q. q * 1000),
     dateParse = (\<lambda>s. InvalidDate),
     now = Date 0,
     sortByCreateTime = (\<lambda>xs. Inr xs),
     replaceTags = (\<lambda>s. s),
     inherited = (\<lambda>v k. False) \<rparr>"

section \<open>Timestamps\<close>

text \<open>
  C10. \<^verbatim>\<open>parseTimestamp\<close> answers "unknown" (\<^verbatim>\<open>null\<close>) for every falsy input; the number
  \<open>0\<close> and the empty string are falsy, so the epoch instant itself is reported as unknown.
\<close>

theorem parseTimestamp_falsy_unknown:
  "(\<not> truthy v \<longrightarrow> parseTimestamp rt v = None)
   \<and> parseTimestamp rt (Num 0) = None
   \<and> parseTimestamp rt (Str []) = None"
  by simp

theorem parseTimestamp_falsy_unknown_witness:
  "\<not> truthy (Bool False) \<and> parseTimestamp sampleRuntime (Bool False) = None
   \<and> parseTimestamp sampleRuntime (Num 0) = None"
  using parseTimestamp_falsy_unknown [of "Bool False" sampleRuntime] by simp

text \<open>
  C7, as stated, fails: the ten-digit input read as seconds and the thirteen-digit input
  read as milliseconds are the same instant, not instants thirteen years apart.
\<close>

theorem parseTimestamp_same_instant_counterexample:
  "parseTimestamp sampleRuntime (Num 1700000000) = Some (Date 1700000000000)
   \<and> parseTimestamp sampleRuntime (Num 1700000000000) = Some (Date 1700000000000)"
  by (simp add: timeClip_def secondsToMillis_def isInteger_def)

text \<open>
  C7, amended. A number other than zero is taken as milliseconds exactly when it exceeds
  9,999,999,999 and as seconds otherwise, the seconds being multiplied by 1000 as doubles
  are: exactly when the product is an integer up to \<open>2^53\<close>, rounded by the runtime
  otherwise. 1700000000 is read as seconds and 1700000000000 as milliseconds, and both
  give the instant 1,700,000,000,000 ms after the epoch.
\<close>

theorem parseTimestamp_number:
  "(n \<noteq> 0 \<and> n > 9999999999 \<longrightarrow> parseTimestamp rt (Num n) = Some (timeClip n))
   \<and> (n \<noteq> 0 \<and> n \<le> 9999999999 \<longrightarrow>
        parseTimestamp rt (Num n) = Some (timeClip (secondsToMillis rt n)))
   \<and> (isInteger n \<and> \<bar>n * 1000\<bar> \<le> 2 ^ 53 \<longrightarrow> secondsToMillis rt n = n * 1000)
   \<and> (\<not> (isInteger n \<and> \<bar>n * 1000\<bar> \<le> 2 ^ 53) \<longrightarrow>
        secondsToMillis rt n = timesThousand rt n)
   \<and> parseTimestamp rt (Num 1700000000) = Some (Date (1700000000 * 1000))
   \<and> parseTimestamp rt (Num 1700000000000) = Some (Date 1700000000000)"
  by (simp add: timeClip_def secondsToMillis_def isInteger_def)

theorem parseTimestamp_number_witness:
  "(9999999999::rat) \<noteq> 0 \<and> (9999999999::rat) \<le> 9999999999
   \<and> isInteger 9999999999 \<and> \<bar>(9999999999::rat) * 1000\<bar> \<le> 2 ^ 53
   \<and> parseTimestamp sampleRuntime (Num 9999999999) = Some (Date 9999999999000)
   \<and> (10000000000::rat) \<noteq> 0 \<and> (10000000000::rat) > 9999999999
   \<and> parseTimestamp sampleRuntime (Num 10000000000) = Some (Date 10000000000)
   \<and> \<not> (isInteger (3 / 2) \<and> \<bar>(3 / 2 :: rat) * 1000\<bar> \<le> 2 ^ 53)
   \<and> parseTimestamp sampleRuntime (Num (3 / 2))
       = Some (timeClip (timesThousand sampleRuntime (3 / 2)))"
proof -
  have f: "\<lfloor>(3::rat) / 2\<rfloor> = 1" by (rule floor_unique) simp_all
  have h: "\<not> (isInteger (3 / 2) \<and> \<bar>(3 / 2 :: rat) * 1000\<bar> \<le> 2 ^ 53)"
    by (simp add: isInteger_def f)
  have i: "isInteger 9999999999" by (simp add: isInteger_def)
  from parseTimestamp_number [of 9999999999 sampleRuntime]
    parseTimestamp_number [of 10000000000 sampleRuntime]
    parseTimestamp_number [of "3 / 2" sampleRuntime] h i
  show ?thesis by (simp add: timeClip_def)
qed

section \<open>Messages\<close>

subsection \<open>What a returned message is made of\<close>

lemma toLowerCase_Nil [simp]: "toLowerCase s = [] \<longleftrightarrow> s = []"
  by (simp add: toLowerCase_def)

lemma normalizeRole_Nil [simp]: "normalizeRole r = [] \<longleftrightarrow> r = []"
  by (simp add: normalizeRole_def)

lemma parseMessage_SomeD:
  assumes "parseMessage rt msg = Inr (Some m)"
  shows "\<exists>s c. rawRole msg = Str s \<and> rawContent rt msg = Inr (Str c) \<and> trim c \<noteq> []
           \<and> role m = Str (if s = [] then ''user'' else normalizeRole (toLowerCase s))
           \<and> content m = Str (trim c)
           \<and> timestamp m = parseTimestamp rt (rawTimestamp msg)"
proof -
  from assms have t: "truthy msg"
    by (simp add: parseMessage_def Let_def split: if_splits)
  from assms t obtain s where s: "rawRole msg = Str s"
    by (cases "rawRole msg") (simp_all add: parseMessage_def)
  from assms t s obtain v where v: "rawContent rt msg = Inr v"
    by (cases "rawContent rt msg") (simp_all add: parseMessage_def)
  from assms t s v obtain c where c: "v = Str c"
    by (cases v) (simp_all add: parseMessage_def)
  from assms t s v c have "trim c \<noteq> []"
    by (simp add: parseMessage_def Let_def split: if_splits)
  with assms t s v c show ?thesis
    by (auto simp: parseMessage_def Let_def)
qed

lemma partTexts_filter:
  "partTexts ps = Inr ts \<Longrightarrow>
     ts = map (\<lambda>p. if isString p then p else get p ''text'')
            (filter (\<lambda>p. isString p \<or> truthy (get p ''text'')) ps)"
  by (induction ps arbitrary: ts) (auto split: if_splits sum.splits)

lemma partTexts_throws:
  "partTexts ps = Inl e \<longleftrightarrow> e = TypeError \<and> (\<exists>p \<in> set ps. nullish p)"
  by (induction ps) (auto split: if_splits sum.splits)

lemma rawRole_cases:
  "(truthy (get msg ''role'') \<longrightarrow> rawRole msg = get msg ''role'')
    \<and> (\<not> truthy (get msg ''role'') \<and> truthy (get msg ''author'') \<longrightarrow>
         rawRole msg = (if isString (get msg ''author'') then get msg ''author''
                        else orElse (get (get msg ''author'') ''role'') (Str ''user'')))
    \<and> (\<not> truthy (get msg ''role'') \<and> \<not> truthy (get msg ''author'')
         \<and> truthy (get msg ''sender'') \<longrightarrow> rawRole msg = get msg ''sender'')
    \<and> (\<not> truthy (get msg ''role'') \<and> \<not> truthy (get msg ''author'')
         \<and> \<not> truthy (get msg ''sender'') \<and> truthy (get msg ''from'') \<longrightarrow>
         rawRole msg = get msg ''from'')
    \<and> (\<not> truthy (get msg ''role'') \<and> \<not> truthy (get msg ''author'')
         \<and> \<not> truthy (get msg ''sender'') \<and> \<not> truthy (get msg ''from'') \<longrightarrow>
         rawRole msg = Str [])"
  by (simp add: rawRole_def)

lemma normalizeRole_cases:
  "(r \<in> {''model'', ''gemini'', ''ai'', ''bot''} \<longrightarrow> normalizeRole r = ''assistant'')
   \<and> (r = ''human'' \<longrightarrow> normalizeRole r = ''user'')
   \<and> (r \<notin> {''model'', ''gemini'', ''ai'', ''bot'', ''human''} \<longrightarrow> normalizeRole r = r)"
  by (simp add: normalizeRole_def)

subsection \<open>Roles\<close>

text \<open>
  C2, as stated, fails: a role that is not one of the five synonyms passes through, so a
  returned message can carry a role that is neither \<^verbatim>\<open>user\<close> nor \<^verbatim>\<open>assistant\<close>.
\<close>

theorem parseMessage_passes_role_through_counterexample:
  "parseMessage sampleRuntime (Obj [(''role'', Str ''system''), (''content'', Str ''hello'')])
     = Inr (Some \<lparr> role = Str ''system'', content = Str ''hello'', timestamp = None \<rparr>)"
  by code_simp

text \<open>
  C2, amended. For every raw message for which \<^verbatim>\<open>parseMessage\<close> returns a message, the
  role is read from the first truthy one of \<^verbatim>\<open>role\<close>, \<^verbatim>\<open>author\<close> (itself when a string,
  else its \<^verbatim>\<open>role\<close>, or \<^verbatim>\<open>user\<close> when that is falsy), \<^verbatim>\<open>sender\<close> and \<^verbatim>\<open>from\<close>; it is a
  string; lowercased, \<^verbatim>\<open>model\<close>, \<^verbatim>\<open>gemini\<close>, \<^verbatim>\<open>ai\<close> and \<^verbatim>\<open>bot\<close> give \<^verbatim>\<open>assistant\<close> and
  \<^verbatim>\<open>human\<close> gives \<^verbatim>\<open>user\<close>; any other non-empty value is kept as it is, lowercased; with
  no role at all the message gets \<^verbatim>\<open>user\<close>.
\<close>

theorem parseMessage_role:
  assumes "parseMessage rt msg = Inr (Some m)"
  shows "(truthy (get msg ''role'') \<longrightarrow> rawRole msg = get msg ''role'')
    \<and> (\<not> truthy (get msg ''role'') \<and> truthy (get msg ''author'') \<longrightarrow>
         rawRole msg = (if isString (get msg ''author'') then get msg ''author''
                        else orElse (get (get msg ''author'') ''role'') (Str ''user'')))
    \<and> (\<not> truthy (get msg ''role'') \<and> \<not> truthy (get msg ''author'')
         \<and> truthy (get msg ''sender'') \<longrightarrow> rawRole msg = get msg ''sender'')
    \<and> (\<not> truthy (get msg ''role'') \<and> \<not> truthy (get msg ''author'')
         \<and> \<not> truthy (get msg ''sender'') \<and> truthy (get msg ''from'') \<longrightarrow>
         rawRole msg = get msg ''from'')
    \<and> (\<not> truthy (get msg ''role'') \<and> \<not> truthy (get msg ''author'')
         \<and> \<not> truthy (get msg ''sender'') \<and> \<not> truthy (get msg ''from'') \<longrightarrow>
         rawRole msg = Str [])
    \<and> (\<exists>s. rawRole msg = Str s
         \<and> (toLowerCase s \<in> {''model'', ''gemini'', ''ai'', ''bot''} \<longrightarrow>
              role m = Str ''assistant'')
         \<and> (toLowerCase s = ''human'' \<longrightarrow> role m = Str ''user'')
         \<and> (s \<noteq> [] \<and> toLowerCase s \<notin> {''model'', ''gemini'', ''ai'', ''bot'', ''human''} \<longrightarrow>
              role m = Str (toLowerCase s))
         \<and> (s = [] \<longrightarrow> role m = Str ''user''))"
proof -
  from parseMessage_SomeD [OF assms] obtain s where
    s: "rawRole msg = Str s"
    and r: "role m = Str (if s = [] then ''user'' else normalizeRole (toLowerCase s))"
    by blast
  have a: "toLowerCase s \<in> {''model'', ''gemini'', ''ai'', ''bot''} \<longrightarrow> role m = Str ''assistant''"
  proof
    assume h: "toLowerCase s \<in> {''model'', ''gemini'', ''ai'', ''bot''}"
    then have "s \<noteq> []" by (cases s) (simp_all add: toLowerCase_def)
    moreover from h have "normalizeRole (toLowerCase s) = ''assistant''"
      by (rule normalizeRole_cases [THEN conjunct1, THEN mp])
    ultimately show "role m = Str ''assistant''" using r by simp
  qed
  have b: "toLowerCase s = ''human'' \<longrightarrow> role m = Str ''user''"
  proof
    assume h: "toLowerCase s = ''human''"
    then have "s \<noteq> []" by (cases s) (simp_all add: toLowerCase_def)
    moreover from h have "normalizeRole (toLowerCase s) = ''user''"
      by (simp add: normalizeRole_def)
    ultimately show "role m = Str ''user''" using r by simp
  qed
  have c: "s \<noteq> [] \<and> toLowerCase s \<notin> {''model'', ''gemini'', ''ai'', ''bot'', ''human''}
      \<longrightarrow> role m = Str (toLowerCase s)"
  proof
    assume h: "s \<noteq> [] \<and> toLowerCase s \<notin> {''model'', ''gemini'', ''ai'', ''bot'', ''human''}"
    then have "normalizeRole (toLowerCase s) = toLowerCase s"
      by (intro normalizeRole_cases [THEN conjunct2, THEN conjunct2, THEN mp]) (rule conjunct2)
    with h show "role m = Str (toLowerCase s)" using r by simp
  qed
  have d: "s = [] \<longrightarrow> role m = Str ''user''"
    using r by simp
  have "\<exists>s. rawRole msg = Str s
         \<and> (toLowerCase s \<in> {''model'', ''gemini'', ''ai'', ''bot''} \<longrightarrow>
              role m = Str ''assistant'')
         \<and> (toLowerCase s = ''human'' \<longrightarrow> role m = Str ''user'')
         \<and> (s \<noteq> [] \<and> toLowerCase s \<notin> {''model'', ''gemini'', ''ai'', ''bot'', ''human''} \<longrightarrow>
              role m = Str (toLowerCase s))
         \<and> (s = [] \<longrightarrow> role m = Str ''user'')"
    by (rule exI [of _ s]) (intro conjI s a b c d)
  then show ?thesis
    by (intro conjI rawRole_cases [of msg, THEN conjunct1]
        rawRole_cases [of msg, THEN conjunct2, THEN conjunct1]
        rawRole_cases [of msg, THEN conjunct2, THEN conjunct2, THEN conjunct1]
        rawRole_cases [of msg, THEN conjunct2, THEN conjunct2, THEN conjunct2, THEN conjunct1]
        rawRole_cases [of msg, THEN conjunct2, THEN conjunct2, THEN conjunct2, THEN conjunct2])
qed

theorem parseMessage_role_witness:
  "parseMessage sampleRuntime
     (Obj [(''author'', Obj [(''role'', Str ''Model'')]), (''content'', Str ''Hello'')])
     = Inr (Some \<lparr> role = Str ''assistant'', content = Str ''Hello'', timestamp = None \<rparr>)
   \<and> rawRole (Obj [(''author'', Obj [(''role'', Str ''Model'')]), (''content'', Str ''Hello'')])
     = Str ''Model''"
proof -
  have h: "parseMessage sampleRuntime
     (Obj [(''author'', Obj [(''role'', Str ''Model'')]), (''content'', Str ''Hello'')])
     = Inr (Some \<lparr> role = Str ''assistant'', content = Str ''Hello'', timestamp = None \<rparr>)"
    by code_simp
  have "truthy (get (Obj [(''author'', Obj [(''role'', Str ''Model'')])]) ''author'')"
    by simp
  with parseMessage_role [OF h] h show ?thesis
    by (simp add: orElse_def)
qed

subsection \<open>Content\<close>

lemma dropLeading_Nil: "dropLeading pats [] = []"
proof -
  have "find (\<lambda>p. p \<noteq> [] \<and> startsWith [] p) pats = None"
    by (auto simp: find_None_iff startsWith_def)
  then show ?thesis by (subst dropLeading.simps) simp
qed

lemma trim_Nil: "trim [] = []"
  by (simp add: trim_def dropLeading_Nil)

lemma joined_parts:
  assumes "(case v of
              Arr ps \<Rightarrow>
                (case partTexts ps of
                   Inl e \<Rightarrow> Inl e
                 | Inr ts \<Rightarrow>
                     (case joinJs rt sep ts of
                        Inl e \<Rightarrow> Inl e
                      | Inr joined \<Rightarrow> Inr (Str joined)))
            | _ \<Rightarrow> Inl TypeError) = Inr r"
  shows "\<exists>ps joined. v = Arr ps \<and> (\<forall>p \<in> set ps. \<not> nullish p)
           \<and> joinJs rt sep
                 (map (\<lambda>p. if isString p then p else get p ''text'')
                    (filter (\<lambda>p. isString p \<or> truthy (get p ''text'')) ps)) = Inr joined
           \<and> r = Str joined"
proof -
  from assms obtain ps where ps: "v = Arr ps"
    by (cases v) simp_all
  with assms obtain ts where ts: "partTexts ps = Inr ts"
    by (cases "partTexts ps") auto
  with assms ps obtain joined where j: "joinJs rt sep ts = Inr joined" and r: "r = Str joined"
    by (cases "joinJs rt sep ts") auto
  from ts have "\<forall>p \<in> set ps. \<not> nullish p"
    using partTexts_throws [of ps TypeError] by auto
  with ps r j partTexts_filter [OF ts] show ?thesis by simp
qed

text \<open>
  C6, as stated, fails: a truthy \<^verbatim>\<open>content\<close> that is an object with neither \<^verbatim>\<open>parts\<close> nor
  \<^verbatim>\<open>text\<close> ends the resolution with no content; the later field \<^verbatim>\<open>text\<close> is not read.
\<close>

theorem parseMessage_stops_at_content_counterexample:
  "parseMessage sampleRuntime (Obj [(''content'', Obj []), (''text'', Str ''hello'')]) = Inr None"
  by code_simp

text \<open>
  C6, amended. When \<^verbatim>\<open>parseMessage\<close> returns a message, its content is the trimmed text
  resolved as follows. With a truthy \<^verbatim>\<open>content\<close> field: the field itself when a
  string; else its \<^verbatim>\<open>parts\<close> when truthy (the entries that are strings or have a truthy
  \<^verbatim>\<open>text\<close>, joined with a newline); else its \<^verbatim>\<open>text\<close>, which then must be truthy, for the
  fields after \<^verbatim>\<open>content\<close> are not consulted. Only with a falsy \<^verbatim>\<open>content\<close> field: the
  top-level \<^verbatim>\<open>parts\<close> when truthy (same rule), else a truthy \<^verbatim>\<open>text\<close>, else \<^verbatim>\<open>message\<close>,
  stringified unless it is a string.
\<close>

theorem parseMessage_content:
  assumes "parseMessage rt msg = Inr (Some m)"
  shows "(\<exists>c. rawContent rt msg = Inr (Str c) \<and> content m = Str (trim c))
    \<and> (truthy (get msg ''content'') \<and> isString (get msg ''content'') \<longrightarrow>
         rawContent rt msg = Inr (get msg ''content''))
    \<and> (truthy (get msg ''content'') \<and> \<not> isString (get msg ''content'')
         \<and> truthy (get (get msg ''content'') ''parts'') \<longrightarrow>
         (\<exists>ps joined. get (get msg ''content'') ''parts'' = Arr ps
            \<and> joinJs rt [CHR 0x0A]
                 (map (\<lambda>p. if isString p then p else get p ''text'')
                    (filter (\<lambda>p. isString p \<or> truthy (get p ''text'')) ps)) = Inr joined
            \<and> rawContent rt msg = Inr (Str joined)))
    \<and> (truthy (get msg ''content'') \<and> \<not> isString (get msg ''content'')
         \<and> \<not> truthy (get (get msg ''content'') ''parts'') \<longrightarrow>
         truthy (get (get msg ''content'') ''text'')
         \<and> rawContent rt msg = Inr (get (get msg ''content'') ''text''))
    \<and> (\<not> truthy (get msg ''content'') \<and> truthy (get msg ''parts'') \<longrightarrow>
         (\<exists>ps joined. get msg ''parts'' = Arr ps
            \<and> joinJs rt [CHR 0x0A]
                 (map (\<lambda>p. if isString p then p else get p ''text'')
                    (filter (\<lambda>p. isString p \<or> truthy (get p ''text'')) ps)) = Inr joined
            \<and> rawContent rt msg = Inr (Str joined)))
    \<and> (\<not> truthy (get msg ''content'') \<and> \<not> truthy (get msg ''parts'')
         \<and> truthy (get msg ''text'') \<longrightarrow>
         rawContent rt msg = Inr (get msg ''text''))
    \<and> (\<not> truthy (get msg ''content'') \<and> \<not> truthy (get msg ''parts'')
         \<and> \<not> truthy (get msg ''text'') \<longrightarrow>
         truthy (get msg ''message'')
         \<and> rawContent rt msg = Inr (if isString (get msg ''message'') then get msg ''message''
                                     else Str (jsonStringify rt (get msg ''message''))))"
proof -
  from parseMessage_SomeD [OF assms] obtain c where
    c: "rawContent rt msg = Inr (Str c)" and ne: "trim c \<noteq> []"
    and m: "content m = Str (trim c)"
    by blast
  have c0: "c \<noteq> []" using ne trim_Nil by auto
  have 1: "\<exists>c. rawContent rt msg = Inr (Str c) \<and> content m = Str (trim c)"
    using c m by blast
  have 2: "truthy (get msg ''content'') \<and> isString (get msg ''content'') \<longrightarrow>
         rawContent rt msg = Inr (get msg ''content'')"
    by (simp add: rawContent_def)
  have 3: "truthy (get msg ''content'') \<and> \<not> isString (get msg ''content'')
         \<and> truthy (get (get msg ''content'') ''parts'') \<longrightarrow>
         (\<exists>ps joined. get (get msg ''content'') ''parts'' = Arr ps
            \<and> joinJs rt [CHR 0x0A]
                 (map (\<lambda>p. if isString p then p else get p ''text'')
                    (filter (\<lambda>p. isString p \<or> truthy (get p ''text'')) ps)) = Inr joined
            \<and> rawContent rt msg = Inr (Str joined))"
  proof
    assume h: "truthy (get msg ''content'') \<and> \<not> isString (get msg ''content'')
         \<and> truthy (get (get msg ''content'') ''parts'')"
    with c have "(case get (get msg ''content'') ''parts'' of
              Arr ps \<Rightarrow>
                (case partTexts ps of
                   Inl e \<Rightarrow> Inl e
                 | Inr ts \<Rightarrow>
                     (case joinJs rt [CHR 0x0A] ts of
                        Inl e \<Rightarrow> Inl e
                      | Inr joined \<Rightarrow> Inr (Str joined)))
            | _ \<Rightarrow> Inl TypeError) = Inr (Str c)"
      by (simp add: rawContent_def)
    from joined_parts [OF this] c show "(\<exists>ps joined. get (get msg ''content'') ''parts'' = Arr ps
            \<and> joinJs rt [CHR 0x0A]
                 (map (\<lambda>p. if isString p then p else get p ''text'')
                    (filter (\<lambda>p. isString p \<or> truthy (get p ''text'')) ps)) = Inr joined
            \<and> rawContent rt msg = Inr (Str joined))"
      by auto
  qed
  have 4: "truthy (get msg ''content'') \<and> \<not> isString (get msg ''content'')
         \<and> \<not> truthy (get (get msg ''content'') ''parts'') \<longrightarrow>
         truthy (get (get msg ''content'') ''text'')
         \<and> rawContent rt msg = Inr (get (get msg ''content'') ''text'')"
  proof
    assume h: "truthy (get msg ''content'') \<and> \<not> isString (get msg ''content'')
         \<and> \<not> truthy (get (get msg ''content'') ''parts'')"
    show "truthy (get (get msg ''content'') ''text'')
         \<and> rawContent rt msg = Inr (get (get msg ''content'') ''text'')"
    proof (cases "truthy (get (get msg ''content'') ''text'')")
      case True
      with h show ?thesis by (simp add: rawContent_def)
    next
      case False
      with h have "rawContent rt msg = Inr (Str [])" by (simp add: rawContent_def)
      with c c0 show ?thesis by simp
    qed
  qed
  have 5: "\<not> truthy (get msg ''content'') \<and> truthy (get msg ''parts'') \<longrightarrow>
         (\<exists>ps joined. get msg ''parts'' = Arr ps
            \<and> joinJs rt [CHR 0x0A]
                 (map (\<lambda>p. if isString p then p else get p ''text'')
                    (filter (\<lambda>p. isString p \<or> truthy (get p ''text'')) ps)) = Inr joined
            \<and> rawContent rt msg = Inr (Str joined))"
  proof
    assume h: "\<not> truthy (get msg ''content'') \<and> truthy (get msg ''parts'')"
    with c have "(case get msg ''parts'' of
              Arr ps \<Rightarrow>
                (case partTexts ps of
                   Inl e \<Rightarrow> Inl e
                 | Inr ts \<Rightarrow>
                     (case joinJs rt [CHR 0x0A] ts of
                        Inl e \<Rightarrow> Inl e
                      | Inr joined \<Rightarrow> Inr (Str joined)))
            | _ \<Rightarrow> Inl TypeError) = Inr (Str c)"
      by (simp add: rawContent_def)
    from joined_parts [OF this] c show "(\<exists>ps joined. get msg ''parts'' = Arr ps
            \<and> joinJs rt [CHR 0x0A]
                 (map (\<lambda>p. if isString p then p else get p ''text'')
                    (filter (\<lambda>p. isString p \<or> truthy (get p ''text'')) ps)) = Inr joined
            \<and> rawContent rt msg = Inr (Str joined))"
      by auto
  qed
  have 6: "\<not> truthy (get msg ''content'') \<and> \<not> truthy (get msg ''parts'')
         \<and> truthy (get msg ''text'') \<longrightarrow>
         rawContent rt msg = Inr (get msg ''text'')"
    by (simp add: rawContent_def)
  have 7: "\<not> truthy (get msg ''content'') \<and> \<not> truthy (get msg ''parts'')
         \<and> \<not> truthy (get msg ''text'') \<longrightarrow>
         truthy (get msg ''message'')
         \<and> rawContent rt msg = Inr (if isString (get msg ''message'') then get msg ''message''
                                     else Str (jsonStringify rt (get msg ''message'')))"
  proof
    assume h: "\<not> truthy (get msg ''content'') \<and> \<not> truthy (get msg ''parts'')
         \<and> \<not> truthy (get msg ''text'')"
    show "truthy (get msg ''message'')
         \<and> rawContent rt msg = Inr (if isString (get msg ''message'') then get msg ''message''
                                     else Str (jsonStringify rt (get msg ''message'')))"
    proof (cases "truthy (get msg ''message'')")
      case True
      with h show ?thesis by (simp add: rawContent_def)
    next
      case False
      with h have "rawContent rt msg = Inr (Str [])" by (simp add: rawContent_def)
      with c c0 show ?thesis by simp
    qed
  qed
  show ?thesis by (intro conjI 1 2 3 4 5 6 7)
qed

theorem parseMessage_content_witness:
  "parseMessage sampleRuntime
     (Obj [(''content'', Obj [(''parts'', Arr [Str ''a'', Num 1, Obj [(''text'', Str ''b'')]])])])
     = Inr (Some \<lparr> role = Str ''user'', content = Str (''a'' @ [CHR 0x0A] @ ''b''),
                    timestamp = None \<rparr>)
   \<and> rawContent sampleRuntime
     (Obj [(''content'', Obj [(''parts'', Arr [Str ''a'', Num 1, Obj [(''text'', Str ''b'')]])])])
     = Inr (Str (''a'' @ [CHR 0x0A] @ ''b''))"
proof -
  have h: "parseMessage sampleRuntime
     (Obj [(''content'', Obj [(''parts'', Arr [Str ''a'', Num 1, Obj [(''text'', Str ''b'')]])])])
     = Inr (Some \<lparr> role = Str ''user'', content = Str (''a'' @ [CHR 0x0A] @ ''b''),
                    timestamp = None \<rparr>)"
    by code_simp
  from parseMessage_content [OF h] h show ?thesis
    by (simp add: joinJs_def)
qed

section \<open>Conversations\<close>

subsection \<open>The message container of the array format\<close>

lemma orElse_skip: "\<not> truthy b \<Longrightarrow> orElse a (orElse b c) = orElse a c"
  by (simp add: orElse_def)

text \<open>
  C5, as stated, fails: a conversation with both an array in \<^verbatim>\<open>messages\<close> and a
  \<^verbatim>\<open>mapping\<close> takes its messages from the mapping.
\<close>

theorem arrayConversation_mapping_wins_counterexample:
  "arrayConversation sampleRuntime
     (Obj [(''title'', Str ''T''),
           (''messages'', Arr [Obj [(''role'', Str ''user''), (''content'', Str ''from messages'')]]),
           (''mapping'', Obj [(''n1'', Obj [(''message'',
               Obj [(''author'', Obj [(''role'', Str ''user'')]),
                    (''content'', Obj [(''parts'', Arr [Str ''from mapping''])])])])]),
           (''current_node'', Str ''n1'')]) 0
   = Inr (Some \<lparr> conv_id = Str ''n1'', title = Str ''T'', createTime = None, updateTime = None,
                    messages = [\<lparr> role = Str ''user'', content = Str ''from mapping'',
                                  timestamp = None \<rparr>],
                    isChatGPT = True \<rparr>)"
  by code_simp

text \<open>
  C5, amended. For every conversation the array-format parser retains: when the
  \<^verbatim>\<open>mapping\<close> field is truthy the messages are those of \<^verbatim>\<open>parseMapping\<close> on it, with
  \<^verbatim>\<open>current_node\<close> as the leaf, whatever \<^verbatim>\<open>messages\<close> holds; otherwise the container is
  the first truthy one of \<^verbatim>\<open>messages\<close>, \<^verbatim>\<open>content\<close>, \<^verbatim>\<open>history\<close> (an empty array when
  there is none), its elements are parsed when it is an array, and when it is not an
  array the conversation has no messages: a later field is not tried.
\<close>

theorem arrayConversation_container:
  assumes "arrayConversation rt conv i = Inr (Some c)"
  shows "(truthy (get conv ''mapping'') \<longrightarrow>
           parseMapping rt (get conv ''mapping'') (get conv ''current_node'') = Inr (messages c)
           \<and> isChatGPT c)
    \<and> (\<not> truthy (get conv ''mapping'') \<longrightarrow>
          (isArray (orElse (get conv ''messages'') (orElse (get conv ''content'')
                     (orElse (get conv ''history'') (Arr [])))) \<longrightarrow>
             parseMessages rt (orElse (get conv ''messages'') (orElse (get conv ''content'')
                     (orElse (get conv ''history'') (Arr [])))) = Inr (messages c))
          \<and> (\<not> isArray (orElse (get conv ''messages'') (orElse (get conv ''content'')
                     (orElse (get conv ''history'') (Arr [])))) \<longrightarrow> messages c = [])
          \<and> \<not> isChatGPT c)"
proof -
  from assms have n: "\<not> nullish conv"
    by (simp add: arrayConversation_def split: if_splits)
  from assms n obtain cid where cid: "conversationId conv = Inr cid"
    by (cases "conversationId conv") (simp_all add: arrayConversation_def)
  show ?thesis
  proof (cases "truthy (get conv ''mapping'')")
    case True
    with assms n cid show ?thesis
      by (cases "parseMapping rt (get conv ''mapping'') (get conv ''current_node'')")
         (auto simp: arrayConversation_def Let_def split: if_splits)
  next
    case False
    let ?container = "orElse (get conv ''messages'') (orElse (get conv ''content'')
                     (orElse (get conv ''history'') (Arr [])))"
    from False have e: "orElse (get conv ''messages'') (orElse (get conv ''mapping'')
        (orElse (get conv ''content'') (orElse (get conv ''history'') (Arr [])))) = ?container"
      by (rule orElse_skip)
    show ?thesis
    proof (cases "isArray ?container")
      case True
      with assms n cid False e show ?thesis
        by (cases "parseMessages rt ?container")
           (auto simp: arrayConversation_def Let_def split: if_splits)
    next
      case nonarr: False
      with assms n cid False e show ?thesis
        by (auto simp: arrayConversation_def Let_def split: if_splits)
    qed
  qed
qed

theorem arrayConversation_container_witness:
  "arrayConversation sampleRuntime
     (Obj [(''history'', Arr [Obj [(''from'', Str ''Human''), (''text'', Str ''Hi'')]])]) 4
   = Inr (Some \<lparr> conv_id = Str ''conversation_5'', title = Str (kaiwa @ '' 5''),
                    createTime = None, updateTime = None,
                    messages = [\<lparr> role = Str ''user'', content = Str ''Hi'', timestamp = None \<rparr>],
                    isChatGPT = False \<rparr>)
   \<and> parseMessages sampleRuntime (Arr [Obj [(''from'', Str ''Human''), (''text'', Str ''Hi'')]])
     = Inr [\<lparr> role = Str ''user'', content = Str ''Hi'', timestamp = None \<rparr>]"
proof -
  have h: "arrayConversation sampleRuntime
     (Obj [(''history'', Arr [Obj [(''from'', Str ''Human''), (''text'', Str ''Hi'')]])]) 4
   = Inr (Some \<lparr> conv_id = Str ''conversation_5'', title = Str (kaiwa @ '' 5''),
                    createTime = None, updateTime = None,
                    messages = [\<lparr> role = Str ''user'', content = Str ''Hi'', timestamp = None \<rparr>],
                    isChatGPT = False \<rparr>)"
    by code_simp
  from arrayConversation_container [OF h] h show ?thesis
    by (simp add: orElse_def)
qed

subsection \<open>Which conversations are retained\<close>

lemma collect_mem:
  "collect f xs = Inr ys \<Longrightarrow> y \<in> set ys \<Longrightarrow> \<exists>x \<in> set xs. f x = Inr (Some y)"
proof (induction xs arbitrary: ys)
  case Nil
  then show ?case by simp
next
  case (Cons x xs)
  from Cons.prems(1) obtain m ms where m: "f x = Inr m" and ms: "collect f xs = Inr ms"
    and ys: "ys = (case m of None \<Rightarrow> ms | Some z \<Rightarrow> z # ms)"
    by (auto split: sum.splits)
  show ?case
  proof (cases "y \<in> set ms")
    case True
    with Cons.IH [OF ms] show ?thesis by auto
  next
    case False
    with Cons.prems(2) ys have "m = Some y" by (cases m) auto
    with m show ?thesis by simp
  qed
qed

lemma collectIndexed_mem:
  assumes "collectIndexed f xs = Inr ys" and "y \<in> set ys"
  shows "\<exists>i < length xs. f (xs ! i) i = Inr (Some y)"
proof -
  from collect_mem [OF assms [unfolded collectIndexed_def]]
  obtain p where p: "p \<in> set (enumerate 0 xs)"
    and e: "(case p of (i, x) \<Rightarrow> f x i) = Inr (Some y)" by blast
  from p have "fst p < length xs" and "xs ! fst p = snd p"
    by (simp_all add: in_set_enumerate_eq)
  with e show ?thesis
    by (intro exI [of _ "fst p"]) (simp add: case_prod_beta)
qed

lemma arrayConversation_kept:
  assumes "arrayConversation rt conv i = Inr (Some c)"
  shows "messages c \<noteq> [] \<or> truthy (get conv ''title'')"
proof -
  from assms have n: "\<not> nullish conv"
    by (simp add: arrayConversation_def split: if_splits)
  from assms n obtain cid where cid: "conversationId conv = Inr cid"
    by (cases "conversationId conv") (simp_all add: arrayConversation_def)
  from assms n cid show ?thesis
    by (simp add: arrayConversation_def Let_def split: sum.splits if_splits)
qed

lemma parseArrayFormat_records:
  assumes "parseArrayFormat rt site = Inr out" and "c \<in> set out"
  shows "\<exists>convs i. site = Arr convs \<and> i < length convs
           \<and> arrayConversation rt (convs ! i) i = Inr (Some c)
           \<and> (messages c \<noteq> [] \<or> truthy (get (convs ! i) ''title''))"
proof -
  from assms(1) obtain convs where s: "site = Arr convs"
    and "collectIndexed (arrayConversation rt) convs = Inr out"
    by (cases site) (simp_all add: parseArrayFormat_def)
  from collectIndexed_mem [OF this(2) assms(2)]
  obtain i where i: "i < length convs"
    and a: "arrayConversation rt (convs ! i) i = Inr (Some c)" by blast
  with arrayConversation_kept [OF a] s show ?thesis by blast
qed

lemma takeoutConversation_messages:
  "takeoutConversation rt chat i = Inr (Some c) \<Longrightarrow> messages c \<noteq> []"
  by (auto simp: takeoutConversation_def split: if_splits sum.splits)

lemma parseTakeoutFormat_messages:
  assumes "parseTakeoutFormat rt v = Inr cs" and "c \<in> set cs"
  shows "messages c \<noteq> []"
proof (cases v)
  case (Arr xs)
  with assms(1) have "collectIndexed (takeoutConversation rt) xs = Inr cs"
    by (simp add: parseTakeoutFormat_def)
  from collectIndexed_mem [OF this assms(2)] show ?thesis
    by (auto dest: takeoutConversation_messages)
qed (use assms in \<open>simp_all add: parseTakeoutFormat_def\<close>)

lemma activityConversation_messages:
  assumes "activityConversation rt activity i = Inr (Some c)"
  shows "messages c \<noteq> []"
proof -
  from assms have n: "\<not> nullish activity"
    by (simp add: activityConversation_def split: if_splits)
  show ?thesis
    using assms n
    by (simp add: activityConversation_def Let_def split: sum.splits if_splits) auto
qed

lemma parseGeminiActivityFormat_messages:
  assumes "parseGeminiActivityFormat rt v = Inr cs" and "c \<in> set cs"
  shows "messages c \<noteq> []"
proof (cases v)
  case (Arr xs)
  with assms(1) have "collectIndexed (activityConversation rt) (rev xs) = Inr cs"
    by (simp add: parseGeminiActivityFormat_def)
  from collectIndexed_mem [OF this assms(2)] show ?thesis
    by (auto dest: activityConversation_messages)
qed (use assms in \<open>simp_all add: parseGeminiActivityFormat_def\<close>)

lemma parseSingleConversation_messages:
  "parseSingleConversation rt v = Inr cs \<Longrightarrow> c \<in> set cs \<Longrightarrow> messages c \<noteq> []"
  by (auto simp: parseSingleConversation_def split: if_splits sum.splits)

lemma parseApiFormat_messages:
  "parseApiFormat rt v = Inr cs \<Longrightarrow> c \<in> set cs \<Longrightarrow> messages c \<noteq> []"
  by (auto simp: parseApiFormat_def split: if_splits sum.splits js.splits)

lemma outputs_Nil: "arrayFormatOutputs rt pool []"
  unfolding arrayFormatOutputs_def
  by (rule exI [of _ "[]"], rule exI [of _ "[]"]) simp

lemma outputs_single:
  assumes "parseArrayFormat rt v = Inr cs" and "v \<in> set pool"
  shows "arrayFormatOutputs rt pool cs"
  unfolding arrayFormatOutputs_def
  using assms by (intro exI [of _ "[v]"] exI [of _ "[cs]"]) simp

lemma outputs_append:
  assumes "arrayFormatOutputs rt p1 a" and "arrayFormatOutputs rt p2 b"
    and "set p1 \<subseteq> set pool" and "set p2 \<subseteq> set pool"
  shows "arrayFormatOutputs rt pool (a @ b)"
proof -
  from assms(1) obtain s1 o1 where
    1: "list_all2 (\<lambda>site out. parseArrayFormat rt site = Inr out) s1 o1"
    "set s1 \<subseteq> set p1" "a = concat o1"
    unfolding arrayFormatOutputs_def by blast
  from assms(2) obtain s2 o2 where
    2: "list_all2 (\<lambda>site out. parseArrayFormat rt site = Inr out) s2 o2"
    "set s2 \<subseteq> set p2" "b = concat o2"
    unfolding arrayFormatOutputs_def by blast
  have "list_all2 (\<lambda>site out. parseArrayFormat rt site = Inr out) (s1 @ s2) (o1 @ o2)"
    using 1(1) 2(1) by (rule list_all2_appendI)
  moreover have "set (s1 @ s2) \<subseteq> set pool" using 1(2) 2(2) assms(3,4) by auto
  moreover have "a @ b = concat (o1 @ o2)" using 1(3) 2(3) by simp
  ultimately show ?thesis unfolding arrayFormatOutputs_def by blast
qed

lemma subvalues_self: "v \<in> set (subvalues v)"
  by (cases v) simp_all

lemma lookup_subvalue:
  "truthy (lookup kvs k) \<Longrightarrow> lookup kvs k \<in> set (subvaluesOfProps kvs)"
  by (induction kvs) (auto simp: subvalues_self)

lemma get_subvalue: "truthy (get v k) \<Longrightarrow> get v k \<in> set (subvalues v)"
  by (cases v) (auto dest: lookup_subvalue)

lemma findConversations_outputs:
  "findConversations rt v = Inr cs \<Longrightarrow> arrayFormatOutputs rt (subvalues v) cs"
  "findValues rt vs = Inr cs \<Longrightarrow> arrayFormatOutputs rt (subvaluesOfList vs) cs"
  "findProps rt kvs = Inr cs \<Longrightarrow> arrayFormatOutputs rt (subvaluesOfProps kvs) cs"
proof (induction rt v and rt vs and rt kvs arbitrary: cs and cs and cs
    rule: findConversations_findValues_findProps.induct)
  case (1 rt xs)
  show ?case
  proof (cases "looksLikeConversations xs")
    case True
    with "1.prems" have "parseArrayFormat rt (Arr xs) = Inr cs" by simp
    then show ?thesis by (rule outputs_single) simp
  next
    case False
    with "1.prems" have "findValues rt xs = Inr cs" by simp
    from "1.IH" [OF False this] outputs_Nil [of rt "[]"] show ?thesis
      using outputs_append [of rt "subvaluesOfList xs" cs "[]" "[]" "subvalues (Arr xs)"]
      by auto
  qed
next
  case (2 rt kvs)
  then have "arrayFormatOutputs rt (subvaluesOfProps kvs) cs" by simp
  with outputs_Nil [of rt "[]"] show ?case
    using outputs_append [of rt "subvaluesOfProps kvs" cs "[]" "[]" "subvalues (Obj kvs)"]
    by auto
next
  case (5 rt v vs)
  from "5.prems" obtain a b where a: "findConversations rt v = Inr a"
    and b: "findValues rt vs = Inr b" and cs: "cs = a @ b"
    by (auto split: sum.splits)
  from "5.IH"(1) [OF a] "5.IH"(2) [OF a b] show ?case
    unfolding cs by (rule outputs_append) simp_all
next
  case (7 rt k v kvs)
  from "7.prems" obtain a b c where
    a: "(if conversationKey k \<and> isArray v then parseArrayFormat rt v else Inr []) = Inr a"
    and b: "findConversations rt v = Inr b"
    and c: "findProps rt kvs = Inr c" and cs: "cs = a @ b @ c"
    by (auto split: sum.splits)
  have pa: "arrayFormatOutputs rt (subvalues v) a"
  proof (cases "conversationKey k \<and> isArray v")
    case True
    with a have "parseArrayFormat rt v = Inr a" by simp
    then show ?thesis using subvalues_self by (rule outputs_single)
  next
    case False
    with a show ?thesis by (simp add: outputs_Nil)
  qed
  have pb: "arrayFormatOutputs rt (subvalues v) b" by (rule "7.IH"(1) [OF a b])
  have pc: "arrayFormatOutputs rt (subvaluesOfProps kvs) c" by (rule "7.IH"(2) [OF a b c])
  have "arrayFormatOutputs rt (subvalues v) (a @ b)"
    using pa pb by (rule outputs_append) simp_all
  then show ?case
    unfolding cs append_assoc [symmetric] using pc by (rule outputs_append) simp_all
qed (simp_all add: outputs_Nil)

lemma dispatch_paths:
  assumes "dispatch rt fromName jsonData = Inr (src, cs)"
  shows "parseGeminiActivityFormat rt jsonData = Inr cs
    \<or> parseTakeoutFormat rt (orElse (get jsonData ''chats'') (get jsonData ''history'')) = Inr cs
    \<or> parseSingleConversation rt jsonData = Inr cs
    \<or> parseApiFormat rt jsonData = Inr cs
    \<or> arrayFormatOutputs rt (subvalues jsonData) cs"
proof -
  have tagged: "\<And>s r. (case r of Inl e \<Rightarrow> Inl e | Inr cs' \<Rightarrow> Inr (s, cs')) = Inr (src, cs)
      \<Longrightarrow> r = Inr cs"
    by (auto split: sum.splits)
  have self: "arrayFormatOutputs rt (subvalues jsonData) cs"
    if "parseArrayFormat rt jsonData = Inr cs"
    using that subvalues_self by (rule outputs_single)
  have generic: "findConversations rt jsonData = Inr cs
      \<Longrightarrow> arrayFormatOutputs rt (subvalues jsonData) cs"
    by (rule findConversations_outputs(1))
  show ?thesis
  proof (cases jsonData)
    case (Arr xs)
    show ?thesis
    proof (cases xs)
      case Nil
      with Arr assms have "parseArrayFormat rt jsonData = Inr cs"
        by (auto simp: dispatch_def dest: tagged)
      with self show ?thesis by blast
    next
      case (Cons first rest)
      with Arr assms have
        "parseGeminiActivityFormat rt jsonData = Inr cs \<or> parseArrayFormat rt jsonData = Inr cs"
        by (auto simp: dispatch_def split: if_splits sum.splits bool.splits dest: tagged)
      with self show ?thesis by blast
    qed
  next
    case (Obj kvs)
    with assms have
      "(truthy (get jsonData ''conversations'')
          \<and> parseArrayFormat rt (get jsonData ''conversations'') = Inr cs)
       \<or> parseTakeoutFormat rt (orElse (get jsonData ''chats'') (get jsonData ''history'')) = Inr cs
       \<or> parseSingleConversation rt jsonData = Inr cs
       \<or> parseApiFormat rt jsonData = Inr cs
       \<or> findConversations rt jsonData = Inr cs"
      by (auto simp: dispatch_def parseGenericFormat_def split: if_splits dest!: tagged)
    moreover have "truthy (get jsonData ''conversations'')
          \<and> parseArrayFormat rt (get jsonData ''conversations'') = Inr cs
        \<Longrightarrow> arrayFormatOutputs rt (subvalues jsonData) cs"
      by (rule outputs_single [of rt "get jsonData ''conversations''"])
         (auto intro: get_subvalue)
    ultimately show ?thesis using generic by blast
  next
    case Undefined
    with assms show ?thesis by (simp add: dispatch_def)
  next
    case Null
    with assms show ?thesis by (simp add: dispatch_def)
  next
    case (Bool b)
    with assms have "cs = []" by (auto simp: dispatch_def parseGenericFormat_def)
    then show ?thesis by (simp add: outputs_Nil)
  next
    case (Num n)
    with assms have "cs = []" by (auto simp: dispatch_def parseGenericFormat_def)
    then show ?thesis by (simp add: outputs_Nil)
  next
    case (Str s)
    with assms have "cs = []" by (auto simp: dispatch_def parseGenericFormat_def)
    then show ?thesis by (simp add: outputs_Nil)
  next
    case Native
    with assms have "cs = []" by (auto simp: dispatch_def parseGenericFormat_def)
    then show ?thesis by (simp add: outputs_Nil)
  qed
qed

text \<open>
  C8. Whatever the document and the file name, the final list is the output of the
  activity, Takeout, single-conversation or API parser, and then every conversation has
  at least one message; or it is made of outputs of \<^verbatim>\<open>parseArrayFormat\<close> on values of
  the document. A conversation in an output of \<^verbatim>\<open>parseArrayFormat\<close> is the one the loop
  body pushed for a record of that array, and it has a message or that record has a
  truthy \<^verbatim>\<open>title\<close>. So a conversation of the final list without messages was produced
  by the array-format parser from a record of the document with a truthy title, and a
  conversation with neither is not retained.
\<close>

theorem retained_conversation:
  assumes "parseConversations rt fileName jsonData = Inr (src, cs)"
  shows "(((parseGeminiActivityFormat rt jsonData = Inr cs
            \<or> parseTakeoutFormat rt
                 (orElse (get jsonData ''chats'') (get jsonData ''history'')) = Inr cs
            \<or> parseSingleConversation rt jsonData = Inr cs
            \<or> parseApiFormat rt jsonData = Inr cs)
           \<and> (\<forall>c \<in> set cs. messages c \<noteq> []))
          \<or> arrayFormatOutputs rt (subvalues jsonData) cs)
    \<and> (\<forall>site out c. parseArrayFormat rt site = Inr out \<and> c \<in> set out \<longrightarrow>
          (\<exists>convs i. site = Arr convs \<and> i < length convs
             \<and> arrayConversation rt (convs ! i) i = Inr (Some c)
             \<and> (messages c \<noteq> [] \<or> truthy (get (convs ! i) ''title''))))
    \<and> (\<forall>c \<in> set cs. messages c \<noteq> []
          \<or> (\<exists>convs i. Arr convs \<in> set (subvalues jsonData) \<and> i < length convs
               \<and> arrayConversation rt (convs ! i) i = Inr (Some c)
               \<and> truthy (get (convs ! i) ''title'')))"
proof -
  from assms obtain src' where
    d: "dispatch rt (detectSourceFromFileName fileName) jsonData = Inr (src', cs)"
    by (auto simp: parseConversations_def split: sum.splits)
  have records: "\<forall>site out c. parseArrayFormat rt site = Inr out \<and> c \<in> set out \<longrightarrow>
          (\<exists>convs i. site = Arr convs \<and> i < length convs
             \<and> arrayConversation rt (convs ! i) i = Inr (Some c)
             \<and> (messages c \<noteq> [] \<or> truthy (get (convs ! i) ''title'')))"
    using parseArrayFormat_records by blast
  have paths: "((parseGeminiActivityFormat rt jsonData = Inr cs
            \<or> parseTakeoutFormat rt
                 (orElse (get jsonData ''chats'') (get jsonData ''history'')) = Inr cs
            \<or> parseSingleConversation rt jsonData = Inr cs
            \<or> parseApiFormat rt jsonData = Inr cs)
           \<and> (\<forall>c \<in> set cs. messages c \<noteq> []))
          \<or> arrayFormatOutputs rt (subvalues jsonData) cs"
    using dispatch_paths [OF d]
      parseGeminiActivityFormat_messages [of rt jsonData cs]
      parseTakeoutFormat_messages
        [of rt "orElse (get jsonData ''chats'') (get jsonData ''history'')" cs]
      parseSingleConversation_messages [of rt jsonData cs]
      parseApiFormat_messages [of rt jsonData cs]
    by blast
  have each: "\<forall>c \<in> set cs. messages c \<noteq> []
          \<or> (\<exists>convs i. Arr convs \<in> set (subvalues jsonData) \<and> i < length convs
               \<and> arrayConversation rt (convs ! i) i = Inr (Some c)
               \<and> truthy (get (convs ! i) ''title''))"
  proof
    fix c assume c: "c \<in> set cs"
    from paths show "messages c \<noteq> []
          \<or> (\<exists>convs i. Arr convs \<in> set (subvalues jsonData) \<and> i < length convs
               \<and> arrayConversation rt (convs ! i) i = Inr (Some c)
               \<and> truthy (get (convs ! i) ''title''))"
    proof
      assume "(parseGeminiActivityFormat rt jsonData = Inr cs
            \<or> parseTakeoutFormat rt
                 (orElse (get jsonData ''chats'') (get jsonData ''history'')) = Inr cs
            \<or> parseSingleConversation rt jsonData = Inr cs
            \<or> parseApiFormat rt jsonData = Inr cs)
           \<and> (\<forall>c \<in> set cs. messages c \<noteq> [])"
      with c show ?thesis by blast
    next
      assume "arrayFormatOutputs rt (subvalues jsonData) cs"
      then obtain sites outs where
        l: "list_all2 (\<lambda>site out. parseArrayFormat rt site = Inr out) sites outs"
        and sub: "set sites \<subseteq> set (subvalues jsonData)" and cs: "cs = concat outs"
        unfolding arrayFormatOutputs_def by blast
      from c cs obtain out where out: "out \<in> set outs" and cout: "c \<in> set out" by auto
      from out obtain n where n: "n < length outs" and on: "outs ! n = out"
        by (auto simp: in_set_conv_nth)
      from l n have "n < length sites" by (simp add: list_all2_lengthD)
      with l on have p: "parseArrayFormat rt (sites ! n) = Inr out"
        and "sites ! n \<in> set sites"
        by (auto simp: list_all2_conv_all_nth)
      with sub have site: "sites ! n \<in> set (subvalues jsonData)" by blast
      from parseArrayFormat_records [OF p cout] site show ?thesis by auto
    qed
  qed
  from paths records each show ?thesis by blast
qed

theorem retained_conversation_witness:
  "parseConversations sampleRuntime ''export.json'' (Arr [Obj [(''title'', Str ''T'')], Obj []])
     = Inr (AI, [\<lparr> conv_id = Str ''conversation_1'', title = Str ''T'', createTime = None,
                      updateTime = None, messages = [], isChatGPT = False \<rparr>])
   \<and> arrayFormatOutputs sampleRuntime (subvalues (Arr [Obj [(''title'', Str ''T'')], Obj []]))
        [\<lparr> conv_id = Str ''conversation_1'', title = Str ''T'', createTime = None,
            updateTime = None, messages = [], isChatGPT = False \<rparr>]
   \<and> (\<exists>convs i. Arr convs \<in> set (subvalues (Arr [Obj [(''title'', Str ''T'')], Obj []]))
         \<and> i < length convs
         \<and> arrayConversation sampleRuntime (convs ! i) i
            = Inr (Some \<lparr> conv_id = Str ''conversation_1'', title = Str ''T'',
                           createTime = None, updateTime = None, messages = [],
                           isChatGPT = False \<rparr>)
         \<and> truthy (get (convs ! i) ''title''))"
proof -
  have h: "parseConversations sampleRuntime ''export.json'' (Arr [Obj [(''title'', Str ''T'')], Obj []])
     = Inr (AI, [\<lparr> conv_id = Str ''conversation_1'', title = Str ''T'', createTime = None,
                      updateTime = None, messages = [], isChatGPT = False \<rparr>])"
    by code_simp
  from retained_conversation [OF h] h show ?thesis by simp
qed

section \<open>The leaf-chain walk\<close>

subsection \<open>Linear chains\<close>


lemma index_own:
  "map_of (ownProps mapping) k = Some n \<Longrightarrow> index rt mapping (Str k) = Inr n"
  by (simp add: index_def propertyKey_def member_def)

lemma walk_stop:
  assumes "\<not> truthy current
    \<or> (\<exists>node. index rt mapping current = Inr node \<and> \<not> truthy node)"
  shows "walk rt mapping seen chain origin current = Inr (chain, seen)"
proof (cases "truthy current")
  case False
  then show ?thesis by (subst walk.simps) simp
next
  case True
  with assms obtain node where "index rt mapping current = Inr node" and n: "\<not> truthy node"
    by blast
  then obtain k where k: "propertyKey rt current = Inr k" and "node = member rt mapping k"
    by (cases "propertyKey rt current") (simp_all add: index_def)
  with n True show ?thesis by (subst walk.simps) simp
qed

lemma walk_step:
  assumes "truthy current" and "propertyKey rt current = Inr k"
    and "truthy (member rt mapping k)" and "identOf origin current \<notin> set seen"
  shows "walk rt mapping seen chain origin current =
      (case chainEntry rt (member rt mapping k) of
         Inl e \<Rightarrow> Inl e
       | Inr entry \<Rightarrow>
           walk rt mapping (seen @ [identOf origin current]) (pushOpt chain entry)
             (ParentRef k) (get (member rt mapping k) ''parent''))"
  using assms by (subst walk.simps) (simp add: Let_def cong: sum.case_cong)

lemma stringsOf_filter:
  "stringsOf ps = map (\<lambda>p. case p of Str t \<Rightarrow> t | _ \<Rightarrow> []) (filter isString ps)"
proof (induction ps)
  case Nil
  then show ?case by simp
next
  case (Cons p ps)
  then show ?case by (cases p) simp_all
qed

lemma get_falsy: "\<not> truthy v \<Longrightarrow> get v k = Undefined"
  by (cases v) simp_all

lemma join_Nil: "join sep [] = []"
  by simp

text \<open>
  On a node whose \<^verbatim>\<open>content.parts\<close> is absent, falsy or an array, the body of the loop
  yields what the specification says the node contributes.
\<close>

lemma chainEntry_spec:
  assumes "truthy (get node ''message'') \<longrightarrow> partsOk (get node ''message'')"
  shows "chainEntry rt node
    = Inr (case specEntries rt node of [] \<Rightarrow> None | m # ms \<Rightarrow> Some m)"
proof (cases "truthy (get node ''message'')")
  case False
  then have "get (get (get node ''message'') ''author'') ''role'' = Undefined"
    by (simp add: get_falsy)
  with False show ?thesis by (simp add: chainEntry_def specEntries_def)
next
  case True
  let ?msg = "get node ''message''"
  let ?parts = "get (get ?msg ''content'') ''parts''"
  have author: "(if nullish (get ?msg ''author'') then Undefined
                 else get (get ?msg ''author'') ''role'') = get (get ?msg ''author'') ''role''"
    by (cases "get ?msg ''author''") simp_all
  have content: "get (orElse (get ?msg ''content'') (Obj [])) ''parts'' = ?parts"
    by (simp add: orElse_def get_falsy)
  from True assms have "partsOk ?msg" by simp
  then consider (absent) "\<not> truthy ?parts" | (array) ps where "?parts = Arr ps"
    unfolding partsOk_def by (cases ?parts) auto
  then show ?thesis
  proof cases
    case absent
    then have "nodeText node = []"
      by (cases ?parts) (simp_all add: nodeText_def)
    moreover from absent have "orElse ?parts (Arr []) = Arr []"
      by (simp add: orElse_def)
    ultimately show ?thesis using True
      by (simp add: chainEntry_def specEntries_def Let_def author content trim_Nil)
  next
    case array
    then have t: "nodeText node = trim (join [CHR 0x0A] (stringsOf ps))"
      by (simp add: nodeText_def stringsOf_filter)
    from array have "orElse ?parts (Arr []) = Arr ps"
      by (simp add: orElse_def)
    with True show ?thesis
      by (auto simp: chainEntry_def specEntries_def Let_def author content t)
  qed
qed

lemma walk_path:
  assumes "path \<noteq> []" and "parentChain path" and "distinct (map fst path)"
    and "\<forall>(k, n) \<in> set path. k \<noteq> [] \<and> map_of (ownProps mapping) k = Some n \<and> truthy n
           \<and> (truthy (get n ''message'') \<longrightarrow> partsOk (get n ''message''))"
    and "\<forall>(k, n) \<in> set path. ByValue (Str k) \<notin> set seen"
    and "\<not> truthy (get (snd (last path)) ''parent'')
         \<or> (\<exists>node. index rt mapping (get (snd (last path)) ''parent'') = Inr node
               \<and> \<not> truthy node)"
  shows "walk rt mapping seen chain origin (Str (fst (hd path))) =
     Inr (chain @ concat (map (specEntries rt) (map snd path)),
          seen @ map (\<lambda>(k, n). ByValue (Str k)) path)"
  using assms
proof (induction path arbitrary: seen chain origin)
  case Nil
  then show ?case by simp
next
  case (Cons kn path)
  obtain k n where kn: "kn = (k, n)" by (cases kn)
  from Cons.prems(4) kn have k: "k \<noteq> []" and own: "map_of (ownProps mapping) k = Some n"
    and n: "truthy n" and ok: "truthy (get n ''message'') \<longrightarrow> partsOk (get n ''message'')"
    by auto
  from Cons.prems(5) kn have fresh: "ByValue (Str k) \<notin> set seen" by auto
  from own have mem: "member rt mapping k = n" by (simp add: member_def)
  define entry where "entry = (case specEntries rt n of [] \<Rightarrow> None | m # ms \<Rightarrow> Some m)"
  have e: "chainEntry rt n = Inr entry"
    unfolding entry_def using ok by (rule chainEntry_spec)
  have push: "pushOpt chain entry = chain @ specEntries rt n"
    unfolding entry_def pushOpt_def by (simp add: specEntries_def)
  have "walk rt mapping seen chain origin (Str k) =
      (case chainEntry rt (member rt mapping k) of
         Inl e \<Rightarrow> Inl e
       | Inr entry \<Rightarrow>
           walk rt mapping (seen @ [identOf origin (Str k)]) (pushOpt chain entry)
             (ParentRef k) (get (member rt mapping k) ''parent''))"
    using k n fresh mem
    by (intro walk_step) (simp_all add: propertyKey_def identOf_def)
  then have step: "walk rt mapping seen chain origin (Str k) =
      walk rt mapping (seen @ [ByValue (Str k)]) (chain @ specEntries rt n)
        (ParentRef k) (get n ''parent'')"
    by (simp add: mem e push identOf_def)
  show ?case
  proof (cases path)
    case Nil
    with Cons.prems(6) kn have "walk rt mapping (seen @ [ByValue (Str k)])
        (chain @ specEntries rt n) (ParentRef k) (get n ''parent'')
      = Inr (chain @ specEntries rt n, seen @ [ByValue (Str k)])"
      by (intro walk_stop) simp
    with step Nil kn show ?thesis by simp
  next
    case (Cons kn' rest)
    obtain k' n' where kn': "kn' = (k', n')" by (cases kn')
    from Cons.prems(2) kn Cons kn' have par: "get n ''parent'' = Str k'"
      and pc: "parentChain path" by auto
    have "walk rt mapping (seen @ [ByValue (Str k)]) (chain @ specEntries rt n) (ParentRef k)
            (Str (fst (hd path))) =
          Inr ((chain @ specEntries rt n) @ concat (map (specEntries rt) (map snd path)),
               (seen @ [ByValue (Str k)]) @ map (\<lambda>(k, n). ByValue (Str k)) path)"
    proof (rule Cons.IH)
      show "path \<noteq> []" using Cons by simp
      show "parentChain path" by (rule pc)
      show "distinct (map fst path)" using Cons.prems(3) by simp
      show "\<forall>(k, n) \<in> set path. k \<noteq> [] \<and> map_of (ownProps mapping) k = Some n \<and> truthy n
              \<and> (truthy (get n ''message'') \<longrightarrow> partsOk (get n ''message''))"
        using Cons.prems(4) by simp
      show "\<forall>(k', n') \<in> set path. ByValue (Str k') \<notin> set (seen @ [ByValue (Str k)])"
        using Cons.prems(3,5) kn by force
      show "\<not> truthy (get (snd (last path)) ''parent'')
            \<or> (\<exists>node. index rt mapping (get (snd (last path)) ''parent'') = Inr node
                  \<and> \<not> truthy node)"
        using Cons.prems(6) Cons by simp
    qed
    with step par Cons kn kn' show ?thesis by simp
  qed
qed

text \<open>
  C3, as stated, fails: a linear chain does not always give a message list. The loop body
  calls \<^verbatim>\<open>parts.filter\<close> on a truthy \<^verbatim>\<open>content.parts\<close> of any type, and on the string
  below that is a call of \<^verbatim>\<open>undefined\<close>, so the walk throws on a chain of length one.
\<close>

theorem parseMapping_linear_chain_throws_counterexample:
  "parseMapping sampleRuntime
     (Obj [(''a'', Obj [(''message'', Obj [(''author'', Obj [(''role'', Str ''user'')]),
                                           (''content'', Obj [(''parts'', Str ''hello'')])]),
                        (''parent'', Null)])])
     (Str ''a'')
   = Inl TypeError"
  by code_simp

text \<open>
  C3, amended. Let the nodes \<open>ns\<close>, listed from the root to the leaf, be a linear parent
  chain of the mapping: distinct non-empty ids, each resolving to its truthy node, every
  node's \<^verbatim>\<open>parent\<close> naming the node before it, the root's \<^verbatim>\<open>parent\<close> falsy or
  unresolvable, and the \<^verbatim>\<open>content.parts\<close> of every message absent, falsy or an array.
  Walking from the leaf, \<^verbatim>\<open>parseMapping\<close> returns, in root-to-leaf order, exactly one
  entry for each node whose message has role \<^verbatim>\<open>user\<close> or \<^verbatim>\<open>assistant\<close> and whose text
  (the string entries of \<^verbatim>\<open>content.parts\<close> joined with a newline and trimmed) is not
  empty, and nothing for the other nodes: \<open>N\<close> entries minus the nodes that contribute
  nothing. The entry has that role, that text and the parsed creation time.
\<close>

theorem parseMapping_linear_chain:
  assumes "ns \<noteq> []" and "distinct (map fst ns)"
    and "\<forall>(k, n) \<in> set ns. k \<noteq> [] \<and> map_of (ownProps mapping) k = Some n \<and> truthy n
           \<and> (truthy (get n ''message'') \<longrightarrow> partsOk (get n ''message''))"
    and "parentChain (rev ns)"
    and "\<not> truthy (get (snd (hd ns)) ''parent'')
         \<or> (\<exists>node. index rt mapping (get (snd (hd ns)) ''parent'') = Inr node
               \<and> \<not> truthy node)"
  shows "parseMapping rt mapping (Str (fst (last ns)))
      = Inr (concat (map (\<lambda>(k, n). specEntries rt n) ns))
    \<and> length (concat (map (\<lambda>(k, n). specEntries rt n) ns))
      = length ns - length (filter (\<lambda>(k, n). specEntries rt n = []) ns)
    \<and> (\<forall>(k, n) \<in> set ns.
          specEntries rt n =
            (if (get (get (get n ''message'') ''author'') ''role'' = Str ''user''
                 \<or> get (get (get n ''message'') ''author'') ''role'' = Str ''assistant'')
                \<and> nodeText n \<noteq> []
             then [\<lparr> role = get (get (get n ''message'') ''author'') ''role'',
                      content = Str (nodeText n),
                      timestamp = parseTimestamp rt (get (get n ''message'') ''create_time'') \<rparr>]
             else []))"
proof -
  let ?path = "rev ns"
  obtain k n where last: "last ns = (k, n)" by (cases "last ns")
  with assms(1) have mem: "(k, n) \<in> set ns" by (metis last_in_set)
  with assms(3) have k: "k \<noteq> []" and own: "map_of (ownProps mapping) k = Some n"
    and n: "truthy n"
    by auto
  from own have nn: "\<not> nullish mapping" by (cases mapping) auto
  have idx: "index rt mapping (Str k) = Inr n" using own by (rule index_own)
  have hd: "Str (fst (hd ?path)) = Str k" using assms(1) last by (simp add: hd_rev)
  have "walk rt mapping [] [] LeafRef (Str (fst (hd ?path))) =
     Inr ([] @ concat (map (specEntries rt) (map snd ?path)),
          [] @ map (\<lambda>(k, n). ByValue (Str k)) ?path)"
  proof (rule walk_path)
    show "?path \<noteq> []" using assms(1) by simp
    show "parentChain ?path" by (rule assms(4))
    show "distinct (map fst ?path)" using assms(2) by (simp add: rev_map [symmetric])
    show "\<forall>(k, n) \<in> set ?path. k \<noteq> [] \<and> map_of (ownProps mapping) k = Some n \<and> truthy n
            \<and> (truthy (get n ''message'') \<longrightarrow> partsOk (get n ''message''))"
      using assms(3) by simp
    show "\<forall>(k, n) \<in> set ?path. ByValue (Str k) \<notin> set []" by simp
    show "\<not> truthy (get (snd (last ?path)) ''parent'')
          \<or> (\<exists>node. index rt mapping (get (snd (last ?path)) ''parent'') = Inr node
                \<and> \<not> truthy node)"
      using assms(1,5) by (simp add: last_rev)
  qed
  then have w: "walk rt mapping [] [] LeafRef (Str k) =
     Inr (concat (map (specEntries rt) (map snd ?path)), map (\<lambda>(k, n). ByValue (Str k)) ?path)"
    unfolding hd by simp
  have single: "rev (specEntries rt x) = specEntries rt x" for x
    by (simp add: specEntries_def)
  have "rev (concat (map (specEntries rt) (map snd (rev xs))))
      = concat (map (\<lambda>(k, n). specEntries rt n) xs)" for xs :: "(string \<times> js) list"
    by (induction xs) (auto simp: single)
  with nn k n idx w have p: "parseMapping rt mapping (Str k)
      = Inr (concat (map (\<lambda>(k, n). specEntries rt n) ns))"
    by (simp add: parseMapping_def)
  have len1: "length (specEntries rt x) = (if specEntries rt x = [] then 0 else 1)" for x
    by (simp add: specEntries_def)
  have "length (concat (map (\<lambda>(k, n). specEntries rt n) xs))
          + length (filter (\<lambda>(k, n). specEntries rt n = []) xs) = length xs"
    for xs :: "(string \<times> js) list"
    by (induction xs) (auto simp: len1 case_prod_beta)
  from this [of ns] have c: "length (concat (map (\<lambda>(k, n). specEntries rt n) ns))
      = length ns - length (filter (\<lambda>(k, n). specEntries rt n = []) ns)"
    by simp
  have s: "\<forall>(k, n) \<in> set ns.
          specEntries rt n =
            (if (get (get (get n ''message'') ''author'') ''role'' = Str ''user''
                 \<or> get (get (get n ''message'') ''author'') ''role'' = Str ''assistant'')
                \<and> nodeText n \<noteq> []
             then [\<lparr> role = get (get (get n ''message'') ''author'') ''role'',
                      content = Str (nodeText n),
                      timestamp = parseTimestamp rt (get (get n ''message'') ''create_time'') \<rparr>]
             else [])"
    by (simp add: specEntries_def split: prod.splits)
  from p c s last show ?thesis by simp
qed

theorem parseMapping_linear_chain_witness:
  "parseMapping sampleRuntime
     (Obj [(''d'', Obj [(''message'', Obj [(''author'', Obj [(''role'', Str ''assistant'')]),
                                           (''content'', Obj [(''parts'',
                                              Arr [Str ''Hel'', Num 5, Str ''lo  ''])]),
                                           (''create_time'', Num 1700000000)]),
                        (''parent'', Str ''c'')]),
           (''r'', Obj [(''message'', Null), (''parent'', Null)]),
           (''b'', Obj [(''message'', Obj [(''author'', Obj [(''role'', Str ''assistant'')]),
                                           (''content'', Obj [(''parts'',
                                              Arr [Str '' '', Str [CHR 0x09]])])]),
                        (''parent'', Str ''a'')]),
           (''a'', Obj [(''message'', Obj [(''author'', Obj [(''role'', Str ''user'')]),
                                           (''content'', Obj [(''parts'',
                                              Arr [Str [CHR 0x0A, CHR '' '', CHR ''H'', CHR ''i'',
                                                        CHR '' '']])])]),
                        (''parent'', Str ''r'')]),
           (''c'', Obj [(''message'', Obj [(''author'', Obj [(''role'', Str ''system'')]),
                                           (''content'', Obj [(''parts'', Arr [Str ''setup''])])]),
                        (''parent'', Str ''b'')])])
     (Str ''d'')
   = Inr [\<lparr> role = Str ''user'', content = Str ''Hi'', timestamp = None \<rparr>,
          \<lparr> role = Str ''assistant'', content = Str [CHR ''H'', CHR ''e'', CHR ''l'', CHR 0x0A,
                                                       CHR ''l'', CHR ''o''],
             timestamp = Some (Date 1700000000000) \<rparr>]"
proof -
  let ?r = "Obj [(''message'', Null), (''parent'', Null)]"
  let ?a = "Obj [(''message'', Obj [(''author'', Obj [(''role'', Str ''user'')]),
                                    (''content'', Obj [(''parts'',
                                       Arr [Str [CHR 0x0A, CHR '' '', CHR ''H'', CHR ''i'',
                                                 CHR '' '']])])]),
                 (''parent'', Str ''r'')]"
  let ?b = "Obj [(''message'', Obj [(''author'', Obj [(''role'', Str ''assistant'')]),
                                    (''content'', Obj [(''parts'',
                                       Arr [Str '' '', Str [CHR 0x09]])])]),
                 (''parent'', Str ''a'')]"
  let ?c = "Obj [(''message'', Obj [(''author'', Obj [(''role'', Str ''system'')]),
                                    (''content'', Obj [(''parts'', Arr [Str ''setup''])])]),
                 (''parent'', Str ''b'')]"
  let ?d = "Obj [(''message'', Obj [(''author'', Obj [(''role'', Str ''assistant'')]),
                                    (''content'', Obj [(''parts'',
                                       Arr [Str ''Hel'', Num 5, Str ''lo  ''])]),
                                    (''create_time'', Num 1700000000)]),
                 (''parent'', Str ''c'')]"
  let ?mapping = "Obj [(''d'', ?d), (''r'', ?r), (''b'', ?b), (''a'', ?a), (''c'', ?c)]"
  let ?ns = "[(''r'', ?r), (''a'', ?a), (''b'', ?b), (''c'', ?c), (''d'', ?d)]"
  have 1: "?ns \<noteq> []" by simp
  have 2: "distinct (map fst ?ns)" by simp
  have 3: "\<forall>(k, n) \<in> set ?ns. k \<noteq> [] \<and> map_of (ownProps ?mapping) k = Some n \<and> truthy n
             \<and> (truthy (get n ''message'') \<longrightarrow> partsOk (get n ''message''))"
    by (simp add: partsOk_def)
  have 4: "parentChain (rev ?ns)" by simp
  have 5: "\<not> truthy (get (snd (hd ?ns)) ''parent'')
         \<or> (\<exists>node. index sampleRuntime ?mapping (get (snd (hd ?ns)) ''parent'') = Inr node
               \<and> \<not> truthy node)"
    by simp
  have "concat (map (\<lambda>(k, n). specEntries sampleRuntime n) ?ns)
     = [\<lparr> role = Str ''user'', content = Str ''Hi'', timestamp = None \<rparr>,
        \<lparr> role = Str ''assistant'', content = Str [CHR ''H'', CHR ''e'', CHR ''l'', CHR 0x0A,
                                                     CHR ''l'', CHR ''o''],
           timestamp = Some (Date 1700000000000) \<rparr>]"
    by code_simp
  with parseMapping_linear_chain [OF 1 2 3 4 5] show ?thesis by simp
qed

subsection \<open>Cycles\<close>












section \<open>Exceptions\<close>

subsection \<open>Where a message throws\<close>










subsection \<open>Records on which nothing throws\<close>




















section \<open>Untrimmed content\<close>

text \<open>
  C9 at a failing input. In the Gemini activity format a \<^verbatim>\<open>title\<close> without the
  prefix is taken as the user message as it is: a title of three spaces becomes a
  message whose content is empty after trimming.
\<close>

theorem activity_title_not_trimmed:
  "parseConversations sampleRuntime ''MyActivity.json''
     (Arr [Obj [(''header'', Str ''Gemini Apps''), (''title'', Str ''   '')]])
     = Inr (Gemini,
         [\<lparr> conv_id = Str ''gemini_activity_1'', title = Str ''   '', createTime = None,
             updateTime = None,
             messages = [\<lparr> role = Str ''user'', content = Str ''   '', timestamp = None \<rparr>],
             isChatGPT = False \<rparr>])
   \<and> trim ''   '' = []"
  by code_simp

end
